theory Spec2Isabelle
  imports Complex_Main "HOL-Library.Multiset"
begin

section \<open>The room server of the photo guessing game (src/lib/game-server.js)\<close>

text \<open>
  The server keeps a process-wide \<^verbatim>\<open>Map\<close> from room codes to room objects and reacts
  to socket events. Every handler resolves its room with \<^verbatim>\<open>rooms.get(roomId)\<close> and
  then mutates that object in place. The embedding below passes the room explicitly:
  a handler takes the room it resolved and returns the mutated room together with the
  effects it performed, in the order the source performs them. A handler that can throw
  a \<^verbatim>\<open>TypeError\<close> returns a sum, \<open>Inl\<close> being the exception.

  Field names follow the source; \<^verbatim>\<open>id\<close> is a constant of HOL, so a player's
  \<^verbatim>\<open>id\<close> is \<open>player_id\<close> and a room's is \<open>room_id\<close>.
\<close>

subsection \<open>Data\<close>

datatype GameState = LOBBY | PLAYING | RESULTS | GAME_OVER

record player =
  player_id :: string
  socketId :: string
  name :: string
  isHost :: bool
  imageCount :: nat
  score :: int
  images :: "string list"

record imageData =
  image :: string
  ownerId :: string
  ownerName :: string

text \<open>
  A JavaScript \<^verbatim>\<open>Map\<close> is an association list with distinct keys in insertion order,
  a \<^verbatim>\<open>Set\<close> a list without duplicates in insertion order. \<open>guesses\<close> is \<open>None\<close> while
  the property \<^verbatim>\<open>room.guesses\<close> does not exist: create-room does not set it, start-game
  and new-game do.
\<close>

record room =
  room_id :: string
  players :: "player list"
  gameState :: GameState
  currentImageIndex :: int
  allImages :: "imageData list"
  syncComplete :: bool
  syncProgress :: "(string \<times> int list) list"
  guesses :: "(int \<times> (string \<times> string) list) list option"

datatype js_error = TypeError string

subsection \<open>Maps, sets and arrays of JavaScript\<close>

fun map_get :: "('k \<times> 'v) list \<Rightarrow> 'k \<Rightarrow> 'v option" where
  "map_get [] k = None"
| "map_get ((k', v) # m) k = (if k' = k then Some v else map_get m k)"

text \<open>\<^verbatim>\<open>m.set(k, v)\<close>: an existing key keeps its position, a new key goes last.\<close>

fun map_set :: "('k \<times> 'v) list \<Rightarrow> 'k \<Rightarrow> 'v \<Rightarrow> ('k \<times> 'v) list" where
  "map_set [] k v = [(k, v)]"
| "map_set ((k', v') # m) k v = (if k' = k then (k, v) # m else (k', v') # map_set m k v)"

definition map_size :: "('k \<times> 'v) list \<Rightarrow> nat" where
  "map_size m = length m"

definition set_add :: "'a list \<Rightarrow> 'a \<Rightarrow> 'a list" where
  "set_add s x = (if x \<in> set s then s else s @ [x])"

definition set_size :: "'a list \<Rightarrow> nat" where
  "set_size s = length s"

text \<open>\<^verbatim>\<open>xs[i]\<close>: \<^verbatim>\<open>undefined\<close> outside the array.\<close>

definition js_index :: "'a list \<Rightarrow> int \<Rightarrow> 'a option" where
  "js_index xs i = (if 0 \<le> i \<and> i < int (length xs) then Some (xs ! nat i) else None)"

text \<open>\<^verbatim>\<open>xs.find(pred)\<close>: the first element satisfying the predicate.\<close>

fun find_first :: "('a \<Rightarrow> bool) \<Rightarrow> 'a list \<Rightarrow> 'a option" where
  "find_first P [] = None"
| "find_first P (x # xs) = (if P x then Some x else find_first P xs)"

text \<open>
  The object returned by \<^verbatim>\<open>find\<close> is the array's own element, so assigning to one of its
  fields changes the first element satisfying the predicate, in place.
\<close>

fun update_first :: "('a \<Rightarrow> bool) \<Rightarrow> ('a \<Rightarrow> 'a) \<Rightarrow> 'a list \<Rightarrow> 'a list" where
  "update_first P f [] = []"
| "update_first P f (x # xs) = (if P x then f x # xs else x # update_first P f xs)"

text \<open>\<^verbatim>\<open>s.charAt(i)\<close>: the empty string outside the string.\<close>

definition charAt :: "string \<Rightarrow> int \<Rightarrow> string" where
  "charAt s i = (if 0 \<le> i \<and> i < int (length s) then [s ! nat i] else [])"

subsection \<open>Random numbers\<close>

text \<open>
  \<^verbatim>\<open>Math.random()\<close> returns a number in \<open>[0, 1)\<close>. A function \<open>rnd\<close> gives the
  values of the successive calls a handler makes: \<open>rnd k\<close> is what call number \<open>k\<close>
  returns, and \<open>in_unit_interval rnd n\<close> says that the first \<open>n\<close> calls are in range.
  \<open>random_index r n\<close> is \<^verbatim>\<open>Math.floor(r * n)\<close>, with the product taken in the reals.
  The source multiplies doubles; for \<open>r\<close> in \<open>[0, 1)\<close> and the small \<open>n\<close> of a deck or an
  alphabet the rounded product also lies in \<open>[0, n)\<close>, and the general statements below
  use nothing but this bound.
\<close>

definition in_unit_interval :: "(nat \<Rightarrow> real) \<Rightarrow> nat \<Rightarrow> bool" where
  "in_unit_interval rnd n = (\<forall>k<n. 0 \<le> rnd k \<and> rnd k < 1)"

definition random_index :: "real \<Rightarrow> nat \<Rightarrow> int" where
  "random_index r n = \<lfloor>r * real n\<rfloor>"

subsection \<open>generateRoomCode\<close>

definition chars :: string where
  "chars = ''ABCDEFGHJKLMNPQRSTUVWXYZ23456789''"

function generateRoomCode_loop :: "(nat \<Rightarrow> real) \<Rightarrow> nat \<Rightarrow> string \<Rightarrow> string" where
  "generateRoomCode_loop rnd i code =
     (if i < 6
      then generateRoomCode_loop rnd (i + 1)
             (code @ charAt chars (random_index (rnd i) (length chars)))
      else code)"
  by pat_completeness auto
termination
  by (relation "measure (\<lambda>(rnd, i, code). 6 - i)") auto

definition generateRoomCode :: "(nat \<Rightarrow> real) \<Rightarrow> string" where
  "generateRoomCode rnd = generateRoomCode_loop rnd 0 []"

subsection \<open>startImageSync: deck assembly and shuffle\<close>

text \<open>
  The nested \<^verbatim>\<open>forEach\<close> pushes one entry per image, player by player. The entry
  captures the owner's id and name at that moment.
\<close>

definition push_images :: "imageData list \<Rightarrow> player \<Rightarrow> imageData list" where
  "push_images deck p =
     foldl (\<lambda>acc im. acc @ [\<lparr>image = im, ownerId = player_id p, ownerName = name p\<rparr>])
       deck (images p)"

definition combine_images :: "player list \<Rightarrow> imageData list" where
  "combine_images ps = foldl push_images [] ps"

text \<open>
  \<^verbatim>\<open>[a[i], a[j]] = [a[j], a[i]]\<close>: both reads happen before the writes; \<open>a[i]\<close> is
  written first.
\<close>

definition swap :: "'a list \<Rightarrow> nat \<Rightarrow> nat \<Rightarrow> 'a list" where
  "swap a i j = (a[i := a ! j])[j := a ! i]"

text \<open>
  \<^verbatim>\<open>for (let i = a.length - 1; i > 0; i--)\<close>. The argument \<open>k\<close> counts the calls of
  \<^verbatim>\<open>Math.random()\<close> made so far. The index \<open>j\<close> is never negative when \<open>rnd\<close> is in
  the unit interval, which is where \<open>nat\<close> is the identity.
\<close>

fun shuffle_loop :: "(nat \<Rightarrow> real) \<Rightarrow> nat \<Rightarrow> nat \<Rightarrow> 'a list \<Rightarrow> 'a list" where
  "shuffle_loop rnd k 0 a = a"
| "shuffle_loop rnd k (Suc i) a =
     (let j = nat (random_index (rnd k) (Suc i + 1))
      in shuffle_loop rnd (Suc k) i (swap a (Suc i) j))"

definition shuffle :: "(nat \<Rightarrow> real) \<Rightarrow> 'a list \<Rightarrow> 'a list" where
  "shuffle rnd a = shuffle_loop rnd 0 (length a - 1) a"

subsection \<open>What the server sends\<close>

record sanitizedPlayer =
  sp_id :: string
  sp_name :: string
  sp_isHost :: bool
  sp_imageCount :: nat
  sp_score :: int

record sanitizedRoom =
  sr_id :: string
  sr_players :: "sanitizedPlayer list"
  sr_gameState :: GameState
  sr_currentImageIndex :: int
  sr_syncComplete :: bool

definition sanitizeRoom :: "room \<Rightarrow> sanitizedRoom" where
  "sanitizeRoom r =
     \<lparr>sr_id = room_id r,
      sr_players = map (\<lambda>p. \<lparr>sp_id = player_id p, sp_name = name p, sp_isHost = isHost p,
                              sp_imageCount = imageCount p, sp_score = score p\<rparr>) (players r),
      sr_gameState = gameState r,
      sr_currentImageIndex = currentImageIndex r,
      sr_syncComplete = syncComplete r\<rparr>"

record playerProgress =
  pp_id :: string
  pp_name :: string
  synced :: nat
  total :: nat

record roundResult =
  rr_playerId :: string
  rr_name :: string
  rr_score :: int
  guessedCorrectly :: bool

record scoreEntry =
  se_id :: string
  se_name :: string
  se_score :: int

text \<open>The value of \<^verbatim>\<open>Math.round((totalSynced / totalRequired) * 100)\<close>.\<close>

datatype js_number = Num int | Infinity | NaN

text \<open>
  The part of the reconnection payload that is present only while the room is PLAYING
  with a non-empty deck: current image (\<^verbatim>\<open>undefined\<close> when the deck has no entry at the
  current index), image index, deck length, and the roster as (id, name).
\<close>

type_synonym resumeData = "string option \<times> int \<times> nat \<times> (string \<times> string) list"

datatype emission =
    RoomCreated string string
  | ErrorMessage string
  | JoinedRoom string string
  | RoomUpdated sanitizedRoom
  | Reconnected string string sanitizedRoom GameState "resumeData option"
  | SyncProgress js_number "playerProgress list"
  | SyncImageBatch nat nat string
  | SyncComplete
  | RoundStarted string int nat "(string \<times> string) list"
  | GuessSubmitted
  | RoundResults "string \<times> string" "roundResult list" "scoreEntry list" bool
  | GameOver "scoreEntry option" "scoreEntry list"
  | PlayerLeft string string
  | NewGameStarted sanitizedRoom

datatype ack = AckSuccess | AckError string

text \<open>
  The callbacks handed to \<^verbatim>\<open>setTimeout\<close>, with what each captures: a batch timer its
  index and image; the grace timer the disconnected player (an object of the roster,
  named here by its id, see \<open>grace_timer\<close>) and the id of the socket that went away; the
  round-advance timer \<^verbatim>\<open>isLastRound\<close> and the scoreboard.
\<close>

datatype timer =
    BatchTimer nat string
  | GraceTimer string string
  | AdvanceTimer bool "scoreEntry list"

text \<open>
  Effects in the order the handler performs them. \<open>Callback a\<close> is \<^verbatim>\<open>callback?.(a)\<close>,
  which calls the acknowledgment function when the client passed one.
\<close>

datatype effect =
    SocketEmit emission
  | Broadcast emission
  | Callback ack
  | SocketJoin string
  | SetTimeout nat timer
  | RoomsDelete string

subsection \<open>startImageSync, sendRound, processRoundResults\<close>

definition startImageSync :: "(nat \<Rightarrow> real) \<Rightarrow> room \<Rightarrow> room \<times> effect list" where
  "startImageSync rnd r =
     (let deck = shuffle rnd (combine_images (players r))
      in (r\<lparr>allImages := deck\<rparr>,
          map (\<lambda>(index, imageData). SetTimeout (index * 100) (BatchTimer index (image imageData)))
            (enumerate 0 deck)))"

text \<open>The batch timer reads the deck length when it fires.\<close>

definition batch_timer :: "room \<Rightarrow> nat \<Rightarrow> string \<Rightarrow> effect list" where
  "batch_timer r index img = [Broadcast (SyncImageBatch index (length (allImages r)) img)]"

definition roster :: "room \<Rightarrow> (string \<times> string) list" where
  "roster r = map (\<lambda>p. (player_id p, name p)) (players r)"

definition sendRound :: "room \<Rightarrow> effect list" where
  "sendRound r =
     (case js_index (allImages r) (currentImageIndex r) of
        None \<Rightarrow> []
      | Some currentImage \<Rightarrow>
          [Broadcast (RoundStarted (image currentImage) (currentImageIndex r)
                        (length (allImages r)) (roster r))])"

text \<open>
  The \<^verbatim>\<open>forEach\<close> of processRoundResults. \<open>roundGuesses\<close> and \<open>currentImage\<close> are
  \<open>None\<close> when the lookup gave \<^verbatim>\<open>undefined\<close>; the body reads
  \<^verbatim>\<open>roundGuesses.get(player.id)\<close> first and \<^verbatim>\<open>currentImage.ownerId\<close> second, and
  either read throws on \<^verbatim>\<open>undefined\<close>. A player without a guess has
  \<^verbatim>\<open>guessedPlayerId === undefined\<close>, which is not equal to any owner id.
\<close>

fun score_players ::
  "(string \<times> string) list option \<Rightarrow> imageData option \<Rightarrow> player list
     \<Rightarrow> js_error + (player list \<times> roundResult list)" where
  "score_players roundGuesses currentImage [] = Inr ([], [])"
| "score_players roundGuesses currentImage (p # ps) =
     (case roundGuesses of
        None \<Rightarrow> Inl (TypeError ''roundGuesses is undefined'')
      | Some rg \<Rightarrow>
          (case currentImage of
             None \<Rightarrow> Inl (TypeError ''currentImage is undefined'')
           | Some ci \<Rightarrow>
               (let guessedPlayerId = map_get rg (player_id p);
                    correct = (guessedPlayerId = Some (ownerId ci));
                    p' = (if correct then p\<lparr>score := score p + 100\<rparr> else p);
                    res = \<lparr>rr_playerId = player_id p, rr_name = name p,
                           rr_score = (if correct then 100 else 0),
                           guessedCorrectly = correct\<rparr>
                in (case score_players roundGuesses currentImage ps of
                      Inl e \<Rightarrow> Inl e
                    | Inr (ps', results) \<Rightarrow> Inr (p' # ps', res # results)))))"

definition scoreboard :: "player list \<Rightarrow> scoreEntry list" where
  "scoreboard ps = map (\<lambda>p. \<lparr>se_id = player_id p, se_name = name p, se_score = score p\<rparr>) ps"

definition processRoundResults :: "room \<Rightarrow> js_error + (room \<times> effect list)" where
  "processRoundResults r =
     (let imageIndex = currentImageIndex r;
          currentImage = js_index (allImages r) imageIndex;
          roundGuesses = (case guesses r of
                            None \<Rightarrow> None
                          | Some g \<Rightarrow> map_get g imageIndex)
      in (case guesses r of
            None \<Rightarrow> Inl (TypeError ''room.guesses is undefined'')
          | Some g \<Rightarrow>
              (case score_players roundGuesses currentImage (players r) of
                 Inl e \<Rightarrow> Inl e
               | Inr (ps', results) \<Rightarrow>
                   (case currentImage of
                      None \<Rightarrow> Inl (TypeError ''currentImage is undefined'')
                    | Some ci \<Rightarrow>
                        (let scores = scoreboard ps';
                             isLastRound = (imageIndex \<ge> int (length (allImages r)) - 1)
                         in Inr (r\<lparr>players := ps'\<rparr>,
                                 [Broadcast (RoundResults (ownerId ci, ownerName ci)
                                               results scores isLastRound),
                                  SetTimeout 4000 (AdvanceTimer isLastRound scores)]))))))"

text \<open>
  The round-advance callback. The sort is \<^verbatim>\<open>[...scores].sort((a, b) => b.score - a.score)\<close>,
  stable and descending by score; \<open>winner\<close> is \<^verbatim>\<open>sortedScores[0]\<close>.
\<close>

definition advance_timer :: "room \<Rightarrow> bool \<Rightarrow> scoreEntry list \<Rightarrow> room \<times> effect list" where
  "advance_timer r isLastRound scores =
     (if isLastRound
      then (let sortedScores = sort_key (\<lambda>e. - se_score e) scores
            in (r\<lparr>gameState := GAME_OVER\<rparr>,
                [Broadcast (GameOver (js_index sortedScores 0) sortedScores)]))
      else (let r' = r\<lparr>currentImageIndex := currentImageIndex r + 1\<rparr>
            in (r', sendRound r')))"

subsection \<open>The socket handlers\<close>

text \<open>
  create-room. \<open>uuid\<close> is the value \<^verbatim>\<open>uuidv4()\<close> returns. The registry is the map
  \<open>rooms\<close>; \<^verbatim>\<open>rooms.set(roomId, room)\<close> stores the room under the generated code.
\<close>

definition new_room :: "string \<Rightarrow> string \<Rightarrow> string \<Rightarrow> room" where
  "new_room roomId playerId sock =
     \<lparr>room_id = roomId,
      players = [\<lparr>player_id = playerId, socketId = sock, name = [], isHost = True,
                  imageCount = 0, score = 0, images = []\<rparr>],
      gameState = LOBBY,
      currentImageIndex = 0,
      allImages = [],
      syncComplete = False,
      syncProgress = [],
      guesses = None\<rparr>"

definition create_room ::
  "(string \<rightharpoonup> room) \<Rightarrow> string \<Rightarrow> (nat \<Rightarrow> real) \<Rightarrow> string
     \<Rightarrow> (string \<rightharpoonup> room) \<times> effect list" where
  "create_room rooms sock rnd uuid =
     (let roomId = generateRoomCode rnd;
          playerId = uuid;
          r = new_room roomId playerId sock
      in (rooms(roomId \<mapsto> r),
          [SocketJoin roomId, SocketEmit (RoomCreated roomId playerId)]))"

text \<open>join-room, for a room that was found. \<^verbatim>\<open>name || ""\<close> is \<open>name\<close> for a string.\<close>

definition join_room :: "room \<Rightarrow> string \<Rightarrow> string \<Rightarrow> string \<Rightarrow> room \<times> effect list" where
  "join_room r sock uuid nm =
     (if gameState r \<noteq> LOBBY
      then (r, [SocketEmit (ErrorMessage ''Game already in progress'')])
      else (let playerId = uuid;
                p = \<lparr>player_id = playerId, socketId = sock, name = nm, isHost = False,
                     imageCount = 0, score = 0, images = []\<rparr>;
                r' = r\<lparr>players := players r @ [p]\<rparr>
            in (r', [SocketJoin (room_id r),
                     SocketEmit (JoinedRoom (room_id r) playerId),
                     Broadcast (RoomUpdated (sanitizeRoom r'))])))"

definition reconnect_to_room :: "room \<Rightarrow> string \<Rightarrow> string \<Rightarrow> room \<times> effect list" where
  "reconnect_to_room r sock playerId =
     (case find_first (\<lambda>p. player_id p = playerId) (players r) of
        None \<Rightarrow> (r, [])
      | Some p \<Rightarrow>
          (let r' = r\<lparr>players := update_first (\<lambda>p. player_id p = playerId)
                                     (\<lambda>p. p\<lparr>socketId := sock\<rparr>) (players r)\<rparr>;
               resume = (if gameState r' = PLAYING \<and> length (allImages r') > 0
                         then Some (map_option image
                                      (js_index (allImages r') (currentImageIndex r')),
                                    currentImageIndex r', length (allImages r'), roster r')
                         else None)
           in (r', [SocketJoin (room_id r),
                    SocketEmit (Reconnected (room_id r) playerId (sanitizeRoom r')
                                  (gameState r') resume)])))"

definition update_name :: "room \<Rightarrow> string \<Rightarrow> string \<Rightarrow> room \<times> effect list" where
  "update_name r sock nm =
     (case find_first (\<lambda>p. socketId p = sock) (players r) of
        None \<Rightarrow> (r, [])
      | Some p \<Rightarrow>
          (let r' = r\<lparr>players := update_first (\<lambda>p. socketId p = sock)
                                     (\<lambda>p. p\<lparr>name := nm\<rparr>) (players r)\<rparr>
           in (r', [Broadcast (RoomUpdated (sanitizeRoom r'))])))"

definition submit_images ::
  "room \<Rightarrow> string \<Rightarrow> string list \<Rightarrow> (nat \<Rightarrow> real) \<Rightarrow> room \<times> effect list" where
  "submit_images r sock imgs rnd =
     (case find_first (\<lambda>p. socketId p = sock) (players r) of
        None \<Rightarrow> (r, [Callback (AckError ''Player not found'')])
      | Some p \<Rightarrow>
          (let r1 = r\<lparr>players := update_first (\<lambda>p. socketId p = sock)
                                     (\<lambda>p. p\<lparr>images := imgs, imageCount := length imgs\<rparr>)
                                     (players r)\<rparr>;
               effs = [Callback AckSuccess, Broadcast (RoomUpdated (sanitizeRoom r1))];
               allReady = list_all (\<lambda>p. imageCount p = 10) (players r1)
           in if allReady
              then (case startImageSync rnd r1 of (r2, effs2) \<Rightarrow> (r2, effs @ effs2))
              else (r1, effs)))"

text \<open>\<^verbatim>\<open>room.syncProgress.get(p.id)?.size || 0\<close>\<close>

definition synced_count :: "room \<Rightarrow> player \<Rightarrow> nat" where
  "synced_count r p =
     (case map_get (syncProgress r) (player_id p) of None \<Rightarrow> 0 | Some s \<Rightarrow> set_size s)"

text \<open>
  \<^verbatim>\<open>Math.round((totalSynced / totalRequired) * 100)\<close> is computed in IEEE doubles: the
  quotient is rounded to the nearest double, so is its product with 100, and
  \<^verbatim>\<open>Math.round\<close> then rounds to the nearest integer, a half going up. The operands are
  sizes of sets and lengths of arrays, integers far below \<open>2 ^ 53\<close>, hence exact doubles,
  and quotient and product stay in the range of normal doubles. A positive double is
  written here as a pair \<open>(n, k)\<close> that stands for \<open>n * 2 ^ k\<close>, with a significand \<open>n\<close>
  of 53 bits.
\<close>

type_synonym double = "nat \<times> int"

text \<open>The number of binary digits of \<open>n\<close>.\<close>

function bit_length :: "nat \<Rightarrow> nat" where
  "bit_length n = (if n = 0 then 0 else Suc (bit_length (n div 2)))"
  by pat_completeness auto
termination
  by (relation "measure id") auto

text \<open>Whether \<open>2 ^ e \<le> p / q\<close>, and the \<open>e\<close> with \<open>2 ^ e \<le> p / q < 2 ^ (e + 1)\<close>.\<close>

definition ratio_ge_pow2 :: "nat \<Rightarrow> nat \<Rightarrow> int \<Rightarrow> bool" where
  "ratio_ge_pow2 p q e =
     (if 0 \<le> e then q * 2 ^ nat e \<le> p else q \<le> p * 2 ^ nat (- e))"

definition binary_exponent :: "nat \<Rightarrow> nat \<Rightarrow> int" where
  "binary_exponent p q =
     (let e = int (bit_length p) - int (bit_length q)
      in if ratio_ge_pow2 p q e then e else e - 1)"

text \<open>\<open>num / den\<close> rounded to the nearest integer, a half going to the even neighbour.\<close>

definition round_half_even :: "nat \<Rightarrow> nat \<Rightarrow> nat" where
  "round_half_even num den =
     (let f = num div den; r = num mod den
      in if 2 * r < den then f
         else if den < 2 * r then f + 1
         else if even f then f else f + 1)"

text \<open>
  The double nearest to \<open>p / q\<close>, for positive \<open>p\<close> and \<open>q\<close>: the quotient is scaled by a
  power of two into \<open>[2 ^ 52, 2 ^ 53)\<close> and rounded there.
\<close>

definition nearest_double :: "nat \<Rightarrow> nat \<Rightarrow> double" where
  "nearest_double p q =
     (let e = binary_exponent p q; t = 52 - e
      in (if 0 \<le> t then round_half_even (p * 2 ^ nat t) q
          else round_half_even p (q * 2 ^ nat (- t)),
          e - 52))"

text \<open>The double product of a double and a small natural number.\<close>

definition double_times :: "double \<Rightarrow> nat \<Rightarrow> double" where
  "double_times d c =
     (case d of (n, k) \<Rightarrow>
        if 0 \<le> k then nearest_double (n * c * 2 ^ nat k) 1
        else nearest_double (n * c) (2 ^ nat (- k)))"

text \<open>\<^verbatim>\<open>Math.round\<close> of a positive double: the floor of the value plus one half.\<close>

definition math_round :: "double \<Rightarrow> int" where
  "math_round d =
     (case d of (n, k) \<Rightarrow>
        if 0 \<le> k then int (n * 2 ^ nat k)
        else int ((2 * n + 2 ^ nat (- k)) div 2 ^ nat (1 - k)))"

text \<open>
  Division by zero gives \<^verbatim>\<open>Infinity\<close>, or \<^verbatim>\<open>NaN\<close> for \<open>0 / 0\<close>, and both pass through the
  product and \<^verbatim>\<open>Math.round\<close> unchanged; zero stays zero.
\<close>

definition progress_percent :: "nat \<Rightarrow> nat \<Rightarrow> js_number" where
  "progress_percent totalSynced totalRequired =
     (if totalRequired = 0 then (if totalSynced = 0 then NaN else Infinity)
      else if totalSynced = 0 then Num 0
      else Num (math_round (double_times (nearest_double totalSynced totalRequired) 100)))"

text \<open>
  images-synced. The source creates the player's \<^verbatim>\<open>Set\<close> when the map has none and then
  adds to it in place: the entry of a known player keeps its position, a new one goes
  last, as with \<open>map_set\<close>.
\<close>

definition images_synced :: "room \<Rightarrow> string \<Rightarrow> int \<Rightarrow> room \<times> effect list" where
  "images_synced r sock batchIndex =
     (case find_first (\<lambda>p. socketId p = sock) (players r) of
        None \<Rightarrow> (r, [])
      | Some p \<Rightarrow>
          (let acked = (case map_get (syncProgress r) (player_id p) of
                          None \<Rightarrow> []
                        | Some s \<Rightarrow> s);
               r1 = r\<lparr>syncProgress :=
                        map_set (syncProgress r) (player_id p) (set_add acked batchIndex)\<rparr>;
               totalImages = length (allImages r1);
               playerProgress =
                 map (\<lambda>p. \<lparr>pp_id = player_id p, pp_name = name p,
                            synced = synced_count r1 p, total = totalImages\<rparr>) (players r1);
               totalSynced = foldl (\<lambda>sum p. sum + synced p) 0 playerProgress;
               totalRequired = totalImages * length (players r1);
               progress = progress_percent totalSynced totalRequired;
               effs = [Broadcast (SyncProgress progress playerProgress)];
               allSynced = list_all (\<lambda>p. synced_count r1 p \<ge> totalImages) (players r1)
           in if allSynced \<and> \<not> syncComplete r1
              then (let r2 = r1\<lparr>syncComplete := True\<rparr>
                    in (r2, effs @ [Broadcast SyncComplete,
                                    Broadcast (RoomUpdated (sanitizeRoom r2))]))
              else (r1, effs)))"

text \<open>\<^verbatim>\<open>player?.isHost\<close>: false when no player is bound to the socket.\<close>

definition is_host_socket :: "room \<Rightarrow> string \<Rightarrow> bool" where
  "is_host_socket r sock =
     (case find_first (\<lambda>p. socketId p = sock) (players r) of
        None \<Rightarrow> False
      | Some p \<Rightarrow> isHost p)"

definition start_game :: "room \<Rightarrow> string \<Rightarrow> room \<times> effect list" where
  "start_game r sock =
     (if \<not> is_host_socket r sock
      then (r, [Callback (AckError ''Only the host can start the game'')])
      else if \<not> syncComplete r
      then (r, [Callback (AckError ''Images not synced yet'')])
      else (let r' = r\<lparr>gameState := PLAYING, currentImageIndex := 0, guesses := Some [],
                       players := map (\<lambda>p. p\<lparr>score := 0\<rparr>) (players r)\<rparr>
            in (r', Callback AckSuccess # sendRound r')))"

text \<open>
  submit-guess. \<^verbatim>\<open>room.guesses.has(imageIndex)\<close> throws when \<^verbatim>\<open>room.guesses\<close> is
  \<^verbatim>\<open>undefined\<close>. The inner map is created when missing and then written in place. The
  test for resolution reads the map of the \<^emph>\<open>submitted\<close> \<open>imageIndex\<close>;
  processRoundResults reads the one of the room's current index.
\<close>

definition submit_guess ::
  "room \<Rightarrow> string \<Rightarrow> int \<Rightarrow> string \<Rightarrow> js_error + (room \<times> effect list)" where
  "submit_guess r sock imageIndex guessedPlayerId =
     (case find_first (\<lambda>p. socketId p = sock) (players r) of
        None \<Rightarrow> Inr (r, [])
      | Some p \<Rightarrow>
          (case guesses r of
             None \<Rightarrow> Inl (TypeError ''room.guesses is undefined'')
           | Some g \<Rightarrow>
               (let old = (case map_get g imageIndex of None \<Rightarrow> [] | Some m \<Rightarrow> m);
                    roundGuesses = map_set old (player_id p) guessedPlayerId;
                    r1 = r\<lparr>guesses := Some (map_set g imageIndex roundGuesses)\<rparr>
                in if map_size roundGuesses \<ge> length (players r1)
                   then (case processRoundResults r1 of
                           Inl e \<Rightarrow> Inl e
                         | Inr (r2, effs) \<Rightarrow> Inr (r2, SocketEmit GuessSubmitted # effs))
                   else Inr (r1, [SocketEmit GuessSubmitted]))))"

definition new_game :: "room \<Rightarrow> string \<Rightarrow> room \<times> effect list" where
  "new_game r sock =
     (if \<not> is_host_socket r sock then (r, [])
      else (let r' = r\<lparr>gameState := LOBBY, currentImageIndex := 0, allImages := [],
                       syncComplete := False, syncProgress := [], guesses := Some [],
                       players := map (\<lambda>p. p\<lparr>score := 0, imageCount := 0, images := []\<rparr>)
                                    (players r)\<rparr>
            in (r', [Broadcast (NewGameStarted (sanitizeRoom r'))])))"

text \<open>
  disconnect, for the first room of the registry that has a player on this socket: the
  roster stays as it is and the grace timer is set (5 minutes).
\<close>

definition disconnect :: "room \<Rightarrow> string \<Rightarrow> room \<times> effect list" where
  "disconnect r sock =
     (case find_first (\<lambda>p. socketId p = sock) (players r) of
        None \<Rightarrow> (r, [])
      | Some p \<Rightarrow> (r, [SetTimeout (5 * 60 * 1000) (GraceTimer (player_id p) sock)]))"

text \<open>
  The grace timer's callback, for a room that \<^verbatim>\<open>rooms.get(roomId)\<close> still finds. The
  callback holds the player object found at disconnect. A roster holds its players by
  reference and never copies them, and \<^verbatim>\<open>uuidv4\<close> gives every player an id of its own,
  so \<open>currentPlayer\<close>, found by that id, is the captured object: \<^verbatim>\<open>player.name\<close> and
  \<^verbatim>\<open>player.isHost\<close> are read from it.
\<close>

definition grace_timer :: "room \<Rightarrow> string \<Rightarrow> string \<Rightarrow> room \<times> effect list" where
  "grace_timer r playerId sock =
     (case find_first (\<lambda>p. player_id p = playerId) (players r) of
        None \<Rightarrow> (r, [])
      | Some currentPlayer \<Rightarrow>
          if socketId currentPlayer = sock
          then (let r1 = r\<lparr>players := filter (\<lambda>p. player_id p \<noteq> playerId) (players r)\<rparr>;
                    effs = [Broadcast (PlayerLeft playerId (name currentPlayer)),
                            Broadcast (RoomUpdated (sanitizeRoom r1))]
                in (case players r1 of
                      [] \<Rightarrow> (r1, effs @ [RoomsDelete (room_id r)])
                    | first # rest \<Rightarrow>
                        if isHost currentPlayer
                        then (let r2 = r1\<lparr>players := first\<lparr>isHost := True\<rparr> # rest\<rparr>
                              in (r2, effs @ [Broadcast (RoomUpdated (sanitizeRoom r2))]))
                        else (r1, effs)))
          else (r, []))"

subsection \<open>The life of one room\<close>

text \<open>
  What can happen to a room object after create-room: the socket events that name its
  code, and its timers firing. The first argument of a socket event is the id of the
  socket it arrives on; \<open>JoinRoom\<close> also carries the \<^verbatim>\<open>uuidv4()\<close> of the new player and
  \<open>SubmitImages\<close> the random numbers a shuffle would draw.
\<close>

datatype event =
    JoinRoom string string string
  | ReconnectToRoom string string
  | UpdateName string string
  | SubmitImages string "string list" "nat \<Rightarrow> real"
  | ImagesSynced string int
  | StartGame string
  | SubmitGuess string int string
  | NewGame string
  | Disconnect string
  | GraceTimerFires string string
  | AdvanceTimerFires bool "scoreEntry list"
  | BatchTimerFires nat string

fun handle :: "room \<Rightarrow> event \<Rightarrow> js_error + (room \<times> effect list)" where
  "handle r (JoinRoom sock uuid nm) = Inr (join_room r sock uuid nm)"
| "handle r (ReconnectToRoom sock playerId) = Inr (reconnect_to_room r sock playerId)"
| "handle r (UpdateName sock nm) = Inr (update_name r sock nm)"
| "handle r (SubmitImages sock imgs rnd) = Inr (submit_images r sock imgs rnd)"
| "handle r (ImagesSynced sock batchIndex) = Inr (images_synced r sock batchIndex)"
| "handle r (StartGame sock) = Inr (start_game r sock)"
| "handle r (SubmitGuess sock imageIndex guessedPlayerId) =
     submit_guess r sock imageIndex guessedPlayerId"
| "handle r (NewGame sock) = Inr (new_game r sock)"
| "handle r (Disconnect sock) = Inr (disconnect r sock)"
| "handle r (GraceTimerFires playerId sock) = Inr (grace_timer r playerId sock)"
| "handle r (AdvanceTimerFires isLastRound scores) = Inr (advance_timer r isLastRound scores)"
| "handle r (BatchTimerFires index img) = Inr (r, batch_timer r index img)"

text \<open>
  The socket handlers and the grace timer look the room up in the registry; the
  round-advance and batch timers hold the room object itself. Once the grace timer has
  deleted the room from the registry, a lookup gives \<^verbatim>\<open>undefined\<close> and the handler takes
  its \<^verbatim>\<open>if (!room)\<close> branch.
\<close>

fun uses_registry :: "event \<Rightarrow> bool" where
  "uses_registry (AdvanceTimerFires isLastRound scores) = False"
| "uses_registry (BatchTimerFires index img) = False"
| "uses_registry e = True"

fun room_not_found :: "event \<Rightarrow> effect list" where
  "room_not_found (JoinRoom sock uuid nm) = [SocketEmit (ErrorMessage ''Room not found'')]"
| "room_not_found (SubmitImages sock imgs rnd) = [Callback (AckError ''Room not found'')]"
| "room_not_found (StartGame sock) = [Callback (AckError ''Room not found'')]"
| "room_not_found e = []"

fun is_delete :: "effect \<Rightarrow> bool" where
  "is_delete (RoomsDelete roomId) = True"
| "is_delete eff = False"

text \<open>A state is the room object and whether the registry still holds it.\<close>

type_synonym state = "room \<times> bool"

definition step :: "state \<Rightarrow> event \<Rightarrow> js_error + (state \<times> effect list)" where
  "step st e =
     (case st of (r, registered) \<Rightarrow>
        if uses_registry e \<and> \<not> registered then Inr (st, room_not_found e)
        else (case handle r e of
                Inl err \<Rightarrow> Inl err
              | Inr (r', effs) \<Rightarrow> Inr ((r', registered \<and> \<not> list_ex is_delete effs), effs)))"

text \<open>A sequence of events; an exception ends it.\<close>

fun run :: "state \<Rightarrow> event list \<Rightarrow> js_error + (state \<times> effect list)" where
  "run st [] = Inr (st, [])"
| "run st (e # es) =
     (case step st e of
        Inl err \<Rightarrow> Inl err
      | Inr (st', effs) \<Rightarrow>
          (case run st' es of
             Inl err \<Rightarrow> Inl err
           | Inr (st'', effs') \<Rightarrow> Inr (st'', effs @ effs')))"

fun is_new_game :: "event \<Rightarrow> bool" where
  "is_new_game (NewGame sock) = True"
| "is_new_game e = False"

text \<open>The ids that \<^verbatim>\<open>uuidv4()\<close> returned for the joins of a sequence of events.\<close>

fun join_uuids :: "event list \<Rightarrow> string list" where
  "join_uuids [] = []"
| "join_uuids (JoinRoom sock uuid nm # es) = uuid # join_uuids es"
| "join_uuids (e # es) = join_uuids es"

definition hosts :: "room \<Rightarrow> player list" where
  "hosts r = filter isHost (players r)"

section \<open>Predicates on steps and states\<close>

text \<open>A step that neither changes the completion flag nor broadcasts sync-complete.\<close>

definition quiet :: "room \<Rightarrow> room \<Rightarrow> effect list \<Rightarrow> bool" where
  "quiet r r' effs =
     (syncComplete r' = syncComplete r \<and> Broadcast SyncComplete \<notin> set effs)"

text \<open>
  A step that keeps the ids and the host flags of the roster, position by position, and
  does not delete the room.
\<close>

definition same_roster :: "room \<Rightarrow> room \<Rightarrow> effect list \<Rightarrow> bool" where
  "same_roster r r' effs =
     (map player_id (players r') = map player_id (players r)
      \<and> map isHost (players r') = map isHost (players r)
      \<and> \<not> list_ex is_delete effs)"

text \<open>
  The roster invariant: ids are distinct, a non-empty roster has exactly one host, and a
  room whose roster is empty is no longer in the registry.
\<close>

definition roster_ok :: "state \<Rightarrow> bool" where
  "roster_ok st =
     (case st of (r, registered) \<Rightarrow>
        distinct (map player_id (players r))
        \<and> (players r \<noteq> [] \<longrightarrow> length (hosts r) = 1)
        \<and> (players r = [] \<longrightarrow> \<not> registered))"

text \<open>What a sequence of events emitted, and the room it left; nothing after an exception.\<close>

fun effects_of :: "js_error + (state \<times> effect list) \<Rightarrow> effect list" where
  "effects_of (Inl err) = []"
| "effects_of (Inr (st, effs)) = effs"

fun state_of :: "js_error + (state \<times> effect list) \<Rightarrow> state option" where
  "state_of (Inl err) = None"
| "state_of (Inr (st, effs)) = Some st"

fun room_of :: "js_error + (state \<times> effect list) \<Rightarrow> room option" where
  "room_of (Inl err) = None"
| "room_of (Inr ((r, registered), effs)) = Some r"

fun is_round_results :: "effect \<Rightarrow> bool" where
  "is_round_results (Broadcast (RoundResults owner results scores isLastRound)) = True"
| "is_round_results eff = False"

text \<open>
  The effect that begins a distribution: startImageSync sets one batch timer per deck
  entry, and the one for index 0 exists exactly when the deck is not empty.
\<close>

fun starts_distribution :: "effect \<Rightarrow> bool" where
  "starts_distribution (SetTimeout delay (BatchTimer index img)) = (index = 0)"
| "starts_distribution eff = False"

section \<open>Concrete rooms and inputs\<close>

text \<open>A source of random numbers that always returns one half.\<close>

definition rnd_half :: "nat \<Rightarrow> real" where
  "rnd_half k = 1 / 2"

text \<open>Two players holding two images each.\<close>

definition two_players :: room where
  "two_players =
     (new_room ''ABCDEF'' ''p1'' ''s1'')
       \<lparr>players :=
          [\<lparr>player_id = ''p1'', socketId = ''s1'', name = ''Ann'', isHost = True,
            imageCount = 2, score = 0, images = [''a1'', ''a2'']\<rparr>,
           \<lparr>player_id = ''p2'', socketId = ''s2'', name = ''Bob'', isHost = False,
            imageCount = 2, score = 0, images = [''b1'', ''b2'']\<rparr>]\<rparr>"

text \<open>A source of random numbers that always returns zero.\<close>

definition rnd_zero :: "nat \<Rightarrow> real" where
  "rnd_zero k = 0"

text \<open>A registry holding one room, under the code \<open>AAAAAA\<close>.\<close>

definition one_room_registry :: "string \<rightharpoonup> room" where
  "one_room_registry = [''AAAAAA'' \<mapsto> new_room ''AAAAAA'' ''p1'' ''s1'']"

text \<open>Three players who have each submitted ten images; Ann is the host.\<close>

definition ann :: player where
  "ann = \<lparr>player_id = ''p1'', socketId = ''s1'', name = ''Ann'', isHost = True,
           imageCount = 10, score = 0,
           images = [''a0'', ''a1'', ''a2'', ''a3'', ''a4'', ''a5'', ''a6'', ''a7'', ''a8'',
                     ''a9'']\<rparr>"

definition bob :: player where
  "bob = \<lparr>player_id = ''p2'', socketId = ''s2'', name = ''Bob'', isHost = False,
           imageCount = 10, score = 0,
           images = [''b0'', ''b1'', ''b2'', ''b3'', ''b4'', ''b5'', ''b6'', ''b7'', ''b8'',
                     ''b9'']\<rparr>"

definition cid :: player where
  "cid = \<lparr>player_id = ''p3'', socketId = ''s3'', name = ''Cid'', isHost = False,
           imageCount = 10, score = 0,
           images = [''c0'', ''c1'', ''c2'', ''c3'', ''c4'', ''c5'', ''c6'', ''c7'', ''c8'',
                     ''c9'']\<rparr>"

text \<open>
  Ann alone in her room, her ten images distributed, nine acknowledgments received from
  her, none of them for a batch index of the deck.
\<close>

definition solo_syncing :: room where
  "solo_syncing =
     \<lparr>room_id = ''ABCDEF'', players = [ann], gameState = LOBBY, currentImageIndex = 0,
      allImages = combine_images [ann], syncComplete = False,
      syncProgress = [(''p1'', [100, 101, 102, 103, 104, 105, 106, 107, 108])],
      guesses = None\<rparr>"

text \<open>
  The three players in the first round of a game: every batch acknowledged by everyone,
  the deck in the order of assembly, no guess yet.
\<close>

definition trio_playing :: room where
  "trio_playing =
     \<lparr>room_id = ''ABCDEF'', players = [ann, bob, cid], gameState = PLAYING,
      currentImageIndex = 0, allImages = combine_images [ann, bob, cid],
      syncComplete = True,
      syncProgress = [(''p1'', map int [0..<30]), (''p2'', map int [0..<30]),
                      (''p3'', map int [0..<30])],
      guesses = Some []\<rparr>"

text \<open>
  The same round once Ann has guessed herself and Bob has guessed Cid, for an image
  that is Ann's.
\<close>

definition trio_guessed :: room where
  "trio_guessed = trio_playing\<lparr>guesses := Some [(0, [(''p1'', ''p1''), (''p2'', ''p3'')])]\<rparr>"

text \<open>
  How these rooms come about from create-room. The random numbers are all close to 1,
  which makes the shuffle leave the deck in the order of assembly. Ann names herself,
  submits her images and acknowledges nine batch indices that are not of the deck.
\<close>

definition rnd_last :: "nat \<Rightarrow> real" where
  "rnd_last k = 99 / 100"

definition solo_history :: "event list" where
  "solo_history =
     [UpdateName ''s1'' ''Ann'', SubmitImages ''s1'' (images ann) rnd_last]
     @ map (ImagesSynced ''s1'') [100, 101, 102, 103, 104, 105, 106, 107, 108]"

text \<open>
  Ann and Bob in a room with a deck of twenty. Ann has acknowledged twenty batch indices
  and Bob two, and only Bob's 7 is an index of the deck. \<open>duo_history\<close> is how the room
  comes about from create-room.
\<close>

definition duo_syncing :: room where
  "duo_syncing =
     \<lparr>room_id = ''ABCDEF'', players = [ann, bob], gameState = LOBBY, currentImageIndex = 0,
      allImages = combine_images [ann, bob], syncComplete = False,
      syncProgress =
        [(''p1'', [1000, 1001, 1002, 1003, 1004, 1005, 1006, 1007, 1008, 1009,
                   1010, 1011, 1012, 1013, 1014, 1015, 1016, 1017, 1018, 1019]),
         (''p2'', [7, - 3])],
      guesses = None\<rparr>"

definition duo_history :: "event list" where
  "duo_history =
     [UpdateName ''s1'' ''Ann'', JoinRoom ''s2'' ''p2'' ''Bob'',
      SubmitImages ''s1'' (images ann) rnd_last, SubmitImages ''s2'' (images bob) rnd_last]
     @ map (ImagesSynced ''s1'')
         [1000, 1001, 1002, 1003, 1004, 1005, 1006, 1007, 1008, 1009,
          1010, 1011, 1012, 1013, 1014, 1015, 1016, 1017, 1018, 1019]
     @ [ImagesSynced ''s2'' 7, ImagesSynced ''s2'' (- 3)]"

text \<open>
  Ann names herself, Bob and Cid join, each submits ten images, each acknowledges the
  thirty batches, and Ann starts the game. \<open>trio_ready\<close> is the room once the deck is
  built.
\<close>

definition trio_ready :: room where
  "trio_ready = trio_playing\<lparr>gameState := LOBBY, syncComplete := False, syncProgress := [],
                             guesses := None\<rparr>"

definition trio_arrives :: "event list" where
  "trio_arrives =
     [UpdateName ''s1'' ''Ann'', JoinRoom ''s2'' ''p2'' ''Bob'', JoinRoom ''s3'' ''p3'' ''Cid'',
      SubmitImages ''s1'' (images ann) rnd_last, SubmitImages ''s2'' (images bob) rnd_last,
      SubmitImages ''s3'' (images cid) rnd_last]"

definition all_acks :: "string \<Rightarrow> event list" where
  "all_acks sock = map (\<lambda>i. ImagesSynced sock (int i)) [0..<30]"

definition trio_history :: "event list" where
  "trio_history =
     trio_arrives @ all_acks ''s1'' @ all_acks ''s2'' @ all_acks ''s3'' @ [StartGame ''s1'']"

text \<open>Ann and Bob send the guesses of \<open>trio_guessed\<close>.\<close>

definition two_guesses :: "event list" where
  "two_guesses = [SubmitGuess ''s1'' 0 ''p1'', SubmitGuess ''s2'' 0 ''p3'']"

text \<open>
  Bob and Cid join Ann's new room, Ann's connection goes away and her grace timer fires.
\<close>

definition host_leaves :: "event list" where
  "host_leaves =
     [JoinRoom ''s2'' ''p2'' ''Bob'', JoinRoom ''s3'' ''p3'' ''Cid'',
      Disconnect ''s1'', GraceTimerFires ''p1'' ''s1'']"

text \<open>
  Three acknowledgments from Ann in \<open>solo_syncing\<close>: the first completes the sync, the
  others arrive afterwards.
\<close>

definition late_acks :: "event list" where
  "late_acks = [ImagesSynced ''s1'' (- 1), ImagesSynced ''s1'' 5, ImagesSynced ''s1'' (- 1)]"

text \<open>
  In \<open>trio_playing\<close>: Ann guesses, her connection goes away, her grace timer removes
  her, then Bob guesses. Cid has not guessed.
\<close>

definition stale_guess :: "event list" where
  "stale_guess =
     [SubmitGuess ''s1'' 0 ''p2'', Disconnect ''s1'', GraceTimerFires ''p1'' ''s1'',
      SubmitGuess ''s2'' 0 ''p3'']"

text \<open>In \<open>trio_playing\<close>, whose round is 0: all three players send a guess for round 1.\<close>

definition wrong_round :: "event list" where
  "wrong_round =
     [SubmitGuess ''s1'' 1 ''p2'', SubmitGuess ''s2'' 1 ''p3'', SubmitGuess ''s3'' 1 ''p1'']"

text \<open>
  Ann, alone in her new room, submits her ten images, and then submits them again.
\<close>

definition resubmission :: "event list" where
  "resubmission =
     [SubmitImages ''s1'' (images ann) rnd_half, SubmitImages ''s1'' (images ann) rnd_zero]"

section \<open>Properties\<close>

subsection \<open>Evaluating sequences of events\<close>

lemmas eval_defs = step_def new_room_def join_room_def disconnect_def
      grace_timer_def Let_def sanitizeRoom_def images_synced_def synced_count_def set_size_def
      set_add_def map_size_def submit_guess_def processRoundResults_def
      js_index_def scoreboard_def start_game_def is_host_socket_def sendRound_def roster_def

lemmas trio_defs = trio_playing_def combine_images_def push_images_def ann_def bob_def cid_def

subsection \<open>The progress percentage in doubles\<close>

lemmas double_defs = progress_percent_def math_round_def double_times_def nearest_double_def
  round_half_even_def binary_exponent_def ratio_ge_pow2_def Let_def

text \<open>
  Some values. The double of \<open>23 / 40\<close> times 100 is just below 57.5, and that of
  \<open>29 / 200\<close> times 100 just below 14.5, so both round down; \<open>0.005 * 100\<close> is the double
  0.5 and rounds up.
\<close>

lemma progress_percent_values:
  "progress_percent 23 40 = Num 57"
  "progress_percent 29 200 = Num 14"
  "progress_percent 1 200 = Num 1"
  "progress_percent 1 3 = Num 33"
  "progress_percent 2 3 = Num 67"
  "progress_percent 9 10 = Num 90"
  "progress_percent 10 10 = Num 100"
  "progress_percent 1000 10 = Num 10000"
  "progress_percent 0 10 = Num 0"
  "progress_percent 3 0 = Infinity"
  "progress_percent 0 0 = NaN"
  "nearest_double 23 40 = (5179139571476070, - 53)"
  "double_times (5179139571476070, - 53) 100 = (8092405580431359, - 47)"
  by (simp_all add: double_defs)

subsection \<open>The shuffle permutes the deck\<close>

lemma random_index_bounds:
  assumes "0 \<le> r" "r < 1" "0 < n"
  shows "0 \<le> random_index r n \<and> random_index r n < int n"
proof -
  have "0 \<le> r * real n" using assms by simp
  moreover have "r * real n < real n" using assms by simp
  ultimately show ?thesis
    unfolding random_index_def by (simp add: floor_less_iff)
qed

lemma mset_swap_deck:
  "i < length a \<Longrightarrow> j < length a \<Longrightarrow> mset (swap a i j) = mset a"
  unfolding swap_def by (simp add: mset_swap)

lemma length_swap: "length (swap a i j) = length a"
  by (simp add: swap_def)

lemma mset_shuffle_loop:
  "i < length a \<Longrightarrow> (\<forall>k'. k \<le> k' \<and> k' < k + i \<longrightarrow> 0 \<le> rnd k' \<and> rnd k' < 1)
     \<Longrightarrow> mset (shuffle_loop rnd k i a) = mset a"
proof (induction i arbitrary: k a)
  case 0
  then show ?case by simp
next
  case (Suc i)
  have r: "0 \<le> rnd k \<and> rnd k < 1" using Suc.prems(2) by simp
  have b: "0 \<le> random_index (rnd k) (Suc i + 1)
           \<and> random_index (rnd k) (Suc i + 1) < int (Suc i + 1)"
    using r by (intro random_index_bounds) simp_all
  define j where "j = nat (random_index (rnd k) (Suc i + 1))"
  have j: "j < length a" using b Suc.prems(1) unfolding j_def by linarith
  have "mset (shuffle_loop rnd (Suc k) i (swap a (Suc i) j)) = mset (swap a (Suc i) j)"
    using Suc.prems by (intro Suc.IH) (simp_all add: length_swap)
  also have "\<dots> = mset a" using Suc.prems(1) j by (rule mset_swap_deck)
  finally show ?case by (simp add: j_def Let_def)
qed

lemma mset_shuffle:
  "in_unit_interval rnd (length a - 1) \<Longrightarrow> mset (shuffle rnd a) = mset a"
proof (cases a)
  case Nil
  then show ?thesis by (simp add: shuffle_def)
next
  case (Cons x xs)
  assume "in_unit_interval rnd (length a - 1)"
  then show ?thesis
    unfolding shuffle_def in_unit_interval_def using Cons
    by (intro mset_shuffle_loop) simp_all
qed

lemma push_images_eq:
  "push_images deck p =
     deck @ map (\<lambda>im. \<lparr>image = im, ownerId = player_id p, ownerName = name p\<rparr>) (images p)"
proof -
  have "foldl (\<lambda>acc im. acc @ [f im]) deck ims = deck @ map f ims"
    for f :: "string \<Rightarrow> imageData" and ims
    by (induction ims arbitrary: deck) simp_all
  then show ?thesis by (simp add: push_images_def)
qed

lemma foldl_push_images:
  "foldl push_images deck ps =
     deck @ concat (map (\<lambda>p. map (\<lambda>im. \<lparr>image = im, ownerId = player_id p,
                                         ownerName = name p\<rparr>) (images p)) ps)"
  by (induction ps arbitrary: deck) (simp_all add: push_images_eq)

lemma combine_images_eq:
  "combine_images ps =
     concat (map (\<lambda>p. map (\<lambda>im. \<lparr>image = im, ownerId = player_id p, ownerName = name p\<rparr>)
                        (images p)) ps)"
  by (simp add: combine_images_def foldl_push_images)

text \<open>
  Claim C3. Whatever numbers in \<open>[0, 1)\<close> the shuffle draws, the deck that
  startImageSync leaves in the room has the same entries, with the same multiplicities,
  as the concatenation of every player's images tagged with the owner's id and name:
  only the order changes. The shuffle of a deck of \<open>n\<close> entries draws \<open>n - 1\<close> numbers.
\<close>

theorem deck_is_permutation:
  assumes "in_unit_interval rnd (length (combine_images (players r)) - 1)"
  shows "mset (allImages (fst (startImageSync rnd r))) =
         mset (concat (map (\<lambda>p. map (\<lambda>im. \<lparr>image = im, ownerId = player_id p,
                                             ownerName = name p\<rparr>) (images p))
                        (players r)))"
proof -
  have "allImages (fst (startImageSync rnd r)) = shuffle rnd (combine_images (players r))"
    by (simp add: startImageSync_def Let_def)
  then have "mset (allImages (fst (startImageSync rnd r))) = mset (combine_images (players r))"
    using assms by (simp add: mset_shuffle)
  then show ?thesis by (simp only: combine_images_eq)
qed

theorem deck_is_permutation_witness:
  "in_unit_interval rnd_half (length (combine_images (players two_players)) - 1) \<and>
   mset (allImages (fst (startImageSync rnd_half two_players))) =
     mset [\<lparr>image = ''a1'', ownerId = ''p1'', ownerName = ''Ann''\<rparr>,
           \<lparr>image = ''a2'', ownerId = ''p1'', ownerName = ''Ann''\<rparr>,
           \<lparr>image = ''b1'', ownerId = ''p2'', ownerName = ''Bob''\<rparr>,
           \<lparr>image = ''b2'', ownerId = ''p2'', ownerName = ''Bob''\<rparr>]"
proof -
  have h: "in_unit_interval rnd_half (length (combine_images (players two_players)) - 1)"
    by (simp add: in_unit_interval_def rnd_half_def)
  show ?thesis
    using h deck_is_permutation [OF h]
    by (simp add: two_players_def new_room_def)
qed

subsection \<open>Room codes\<close>

lemma generateRoomCode_rnd_zero: "generateRoomCode rnd_zero = ''AAAAAA''"
  by (simp add: generateRoomCode_def rnd_zero_def random_index_def charAt_def chars_def)

lemma generateRoomCode_rnd_half: "generateRoomCode rnd_half = ''SSSSSS''"
  by (simp add: generateRoomCode_def rnd_half_def random_index_def charAt_def chars_def)

text \<open>
  Claim C7, as amended. create-room stores the new room under the code that
  generateRoomCode produced and never looks that code up in the registry. When the
  generated code is not in use, it differs from the code of every existing room and every
  existing room stays as it was.
\<close>

theorem create_room_no_collision:
  "fst (create_room rooms sock rnd uuid) =
     rooms(generateRoomCode rnd \<mapsto> new_room (generateRoomCode rnd) uuid sock) \<and>
   (generateRoomCode rnd \<notin> dom rooms \<longrightarrow>
      (\<forall>c \<in> dom rooms. c \<noteq> generateRoomCode rnd \<and>
                        fst (create_room rooms sock rnd uuid) c = rooms c))"
  by (auto simp: create_room_def Let_def)

theorem create_room_no_collision_witness:
  "generateRoomCode rnd_half \<notin> dom one_room_registry \<and>
   fst (create_room one_room_registry ''s9'' rnd_half ''p9'') ''SSSSSS''
     = Some (new_room ''SSSSSS'' ''p9'' ''s9'') \<and>
   fst (create_room one_room_registry ''s9'' rnd_half ''p9'') ''AAAAAA''
     = Some (new_room ''AAAAAA'' ''p1'' ''s1'')"
  using create_room_no_collision
          [of one_room_registry "''s9''" rnd_half "''p9''"]
  by (simp add: generateRoomCode_rnd_half one_room_registry_def)

text \<open>
  Claim C7 as stated fails: when all six draws give the first letter, the code is
  \<open>AAAAAA\<close>, which is in use, and the room stored there is replaced.
\<close>

theorem create_room_collision:
  "generateRoomCode rnd_zero \<in> dom one_room_registry \<and>
   fst (create_room one_room_registry ''s9'' rnd_zero ''p9'') (generateRoomCode rnd_zero)
     \<noteq> one_room_registry (generateRoomCode rnd_zero)"
  by (simp add: generateRoomCode_rnd_zero one_room_registry_def create_room_def new_room_def Let_def)

subsection \<open>Starting before the images are synced\<close>

text \<open>
  Claim C5. While the completion flag is not set, start-game from the host answers with
  the error \<open>Images not synced yet\<close> and does nothing else: the room is the same
  afterwards (so its phase, round index, guesses and scores are), and nothing is
  broadcast, in particular no round.
\<close>

theorem start_game_before_sync:
  assumes "is_host_socket r sock" and "\<not> syncComplete r"
  shows "start_game r sock = (r, [Callback (AckError ''Images not synced yet'')])"
  using assms by (simp add: start_game_def)

theorem start_game_before_sync_witness:
  "is_host_socket (new_room ''ABCDEF'' ''p1'' ''s1'') ''s1'' \<and>
   \<not> syncComplete (new_room ''ABCDEF'' ''p1'' ''s1'') \<and>
   start_game (new_room ''ABCDEF'' ''p1'' ''s1'') ''s1'' =
     (new_room ''ABCDEF'' ''p1'' ''s1'', [Callback (AckError ''Images not synced yet'')])"
proof -
  have h1: "is_host_socket (new_room ''ABCDEF'' ''p1'' ''s1'') ''s1''"
    by (simp add: is_host_socket_def new_room_def)
  have h2: "\<not> syncComplete (new_room ''ABCDEF'' ''p1'' ''s1'')"
    by (simp add: new_room_def)
  show ?thesis using h1 h2 start_game_before_sync [OF h1 h2] by simp
qed

subsection \<open>Scoring a round\<close>






subsection \<open>Acknowledgments of batches\<close>

lemma map_get_map_set: "map_get (map_set m k v) k' = (if k' = k then Some v else map_get m k')"
  by (induction m) auto

lemma foldl_add_synced:
  "foldl (\<lambda>sum p. sum + synced p) n pps = n + sum_list (map synced pps)"
  by (induction pps arbitrary: n) simp_all

text \<open>
  Claim C10. images-synced takes any batch index from a player bound to the socket,
  whether or not the deck has such a position: the index is inserted into that player's
  set, the progress broadcast reports the sizes of the sets and the percentage that the
  double arithmetic of the source makes of their sum, and when every player's set
  has at least as many elements as the deck and the completion flag is not yet set, the
  flag is set and sync-complete is broadcast. Nothing relates the indices to the deck.
\<close>

theorem images_synced_counts_any_index:
  assumes "find_first (\<lambda>p. socketId p = sock) (players r) = Some p"
  shows
    "map_get (syncProgress (fst (images_synced r sock batchIndex))) (player_id p) =
       Some (set_add (case map_get (syncProgress r) (player_id p) of None \<Rightarrow> [] | Some s \<Rightarrow> s)
               batchIndex)
     \<and> hd (snd (images_synced r sock batchIndex)) =
         Broadcast
           (SyncProgress
              (progress_percent
                 (sum_list (map (synced_count (fst (images_synced r sock batchIndex)))
                              (players r)))
                 (length (allImages r) * length (players r)))
              (map (\<lambda>q. \<lparr>pp_id = player_id q, pp_name = name q,
                          synced = synced_count (fst (images_synced r sock batchIndex)) q,
                          total = length (allImages r)\<rparr>) (players r)))
     \<and> (\<not> syncComplete r
          \<and> (\<forall>q \<in> set (players r).
                 length (allImages r) \<le> synced_count (fst (images_synced r sock batchIndex)) q)
        \<longrightarrow> syncComplete (fst (images_synced r sock batchIndex))
            \<and> Broadcast SyncComplete \<in> set (snd (images_synced r sock batchIndex)))"
proof -
  define acked where
    "acked = (case map_get (syncProgress r) (player_id p) of None \<Rightarrow> [] | Some s \<Rightarrow> s)"
  define r1 where
    "r1 = r\<lparr>syncProgress := map_set (syncProgress r) (player_id p) (set_add acked batchIndex)\<rparr>"
  define progress where
    "progress = Broadcast
       (SyncProgress
          (progress_percent (sum_list (map (synced_count r1) (players r)))
             (length (allImages r) * length (players r)))
          (map (\<lambda>q. \<lparr>pp_id = player_id q, pp_name = name q, synced = synced_count r1 q,
                      total = length (allImages r)\<rparr>) (players r)))"
  define allSynced where
    "allSynced = list_all (\<lambda>q. length (allImages r) \<le> synced_count r1 q) (players r)"
  have unfolded: "images_synced r sock batchIndex =
      (if allSynced \<and> \<not> syncComplete r
       then (r1\<lparr>syncComplete := True\<rparr>,
             [progress, Broadcast SyncComplete,
              Broadcast (RoomUpdated (sanitizeRoom (r1\<lparr>syncComplete := True\<rparr>)))])
       else (r1, [progress]))"
    using assms
    by (simp add: images_synced_def Let_def foldl_add_synced comp_def
        acked_def r1_def progress_def allSynced_def)
  have same_count: "synced_count (fst (images_synced r sock batchIndex)) = synced_count r1"
    by (rule ext) (simp add: unfolded synced_count_def)
  have "map_get (syncProgress (fst (images_synced r sock batchIndex))) (player_id p) =
          Some (set_add acked batchIndex)"
    by (simp add: unfolded r1_def map_get_map_set)
  moreover have "hd (snd (images_synced r sock batchIndex)) = progress"
    by (simp add: unfolded)
  moreover have "\<not> syncComplete r \<and> allSynced
      \<longrightarrow> syncComplete (fst (images_synced r sock batchIndex))
          \<and> Broadcast SyncComplete \<in> set (snd (images_synced r sock batchIndex))"
    by (simp add: unfolded)
  ultimately show ?thesis
    unfolding same_count
    by (simp add: acked_def progress_def allSynced_def list_all_iff)
qed

theorem images_synced_counts_any_index_witness:
  "find_first (\<lambda>p. socketId p = ''s1'') (players solo_syncing) = Some ann
   \<and> length (allImages solo_syncing) = 10
   \<and> map_get (syncProgress (fst (images_synced solo_syncing ''s1'' (- 1)))) ''p1'' =
       Some [100, 101, 102, 103, 104, 105, 106, 107, 108, - 1]
   \<and> syncComplete (fst (images_synced solo_syncing ''s1'' (- 1)))
   \<and> Broadcast SyncComplete \<in> set (snd (images_synced solo_syncing ''s1'' (- 1)))
   \<and> hd (snd (images_synced solo_syncing ''s1'' (- 1))) =
       Broadcast (SyncProgress (Num 100)
         [\<lparr>pp_id = ''p1'', pp_name = ''Ann'', synced = 10, total = 10\<rparr>])
   \<and> find_first (\<lambda>p. socketId p = ''s2'') (players duo_syncing) = Some bob
   \<and> map_get (syncProgress (fst (images_synced duo_syncing ''s2'' 500))) ''p2'' =
       Some [7, - 3, 500]
   \<and> snd (images_synced duo_syncing ''s2'' 500) =
       [Broadcast (SyncProgress (Num 57)
          [\<lparr>pp_id = ''p1'', pp_name = ''Ann'', synced = 20, total = 20\<rparr>,
           \<lparr>pp_id = ''p2'', pp_name = ''Bob'', synced = 3, total = 20\<rparr>])]"
proof -
  have h: "find_first (\<lambda>p. socketId p = ''s1'') (players solo_syncing) = Some ann"
    by (simp add: solo_syncing_def ann_def)
  have h2: "find_first (\<lambda>p. socketId p = ''s2'') (players duo_syncing) = Some bob"
    by (simp add: duo_syncing_def ann_def bob_def)
  have len: "length (allImages solo_syncing) = 10"
    by (simp add: solo_syncing_def combine_images_def push_images_def ann_def)
  have solo: "images_synced solo_syncing ''s1'' (- 1) =
      (solo_syncing\<lparr>syncProgress :=
                       [(''p1'', [100, 101, 102, 103, 104, 105, 106, 107, 108, - 1])],
                     syncComplete := True\<rparr>,
       [Broadcast (SyncProgress (progress_percent 10 10)
          [\<lparr>pp_id = ''p1'', pp_name = ''Ann'', synced = 10, total = 10\<rparr>]),
        Broadcast SyncComplete,
        Broadcast (RoomUpdated
          (sanitizeRoom
             (solo_syncing\<lparr>syncProgress :=
                              [(''p1'', [100, 101, 102, 103, 104, 105, 106, 107, 108, - 1])],
                            syncComplete := True\<rparr>)))])"
    by (simp add: solo_syncing_def images_synced_def Let_def synced_count_def set_size_def
        set_add_def combine_images_def push_images_def ann_def numeral_eq_Suc)
  have duo: "images_synced duo_syncing ''s2'' 500 =
      (duo_syncing\<lparr>syncProgress :=
          [(''p1'', [1000, 1001, 1002, 1003, 1004, 1005, 1006, 1007, 1008, 1009,
                     1010, 1011, 1012, 1013, 1014, 1015, 1016, 1017, 1018, 1019]),
           (''p2'', [7, - 3, 500])]\<rparr>,
       [Broadcast (SyncProgress (progress_percent 23 40)
          [\<lparr>pp_id = ''p1'', pp_name = ''Ann'', synced = 20, total = 20\<rparr>,
           \<lparr>pp_id = ''p2'', pp_name = ''Bob'', synced = 3, total = 20\<rparr>])])"
    by (simp add: duo_syncing_def images_synced_def Let_def synced_count_def set_size_def
        set_add_def combine_images_def push_images_def ann_def bob_def numeral_eq_Suc)
  from images_synced_counts_any_index [OF h, of "- 1"]
       images_synced_counts_any_index [OF h2, of 500]
  show ?thesis
    using h h2 len
    by (simp add: solo duo progress_percent_values)
qed

subsection \<open>Sync completion is announced once\<close>

lemma quiet_join_room: "join_room r sock uuid nm = (r', effs) \<Longrightarrow> quiet r r' effs"
  by (auto simp: join_room_def quiet_def Let_def split: if_splits)

lemma quiet_reconnect_to_room:
  "reconnect_to_room r sock playerId = (r', effs) \<Longrightarrow> quiet r r' effs"
  by (auto simp: reconnect_to_room_def quiet_def Let_def split: option.splits)

lemma quiet_update_name: "update_name r sock nm = (r', effs) \<Longrightarrow> quiet r r' effs"
  by (auto simp: update_name_def quiet_def Let_def split: option.splits)

lemma quiet_startImageSync: "startImageSync rnd r = (r', effs) \<Longrightarrow> quiet r r' effs"
  by (auto simp: startImageSync_def quiet_def Let_def)

lemma quiet_submit_images:
  assumes "submit_images r sock imgs rnd = (r', effs)"
  shows "quiet r r' effs"
proof (cases "find_first (\<lambda>p. socketId p = sock) (players r)")
  case None
  with assms show ?thesis by (auto simp: submit_images_def quiet_def)
next
  case (Some p)
  define r1 where
    "r1 = r\<lparr>players := update_first (\<lambda>p. socketId p = sock)
                            (\<lambda>p. p\<lparr>images := imgs, imageCount := length imgs\<rparr>) (players r)\<rparr>"
  obtain r2 effs2 where s: "startImageSync rnd r1 = (r2, effs2)" by (cases "startImageSync rnd r1")
  from quiet_startImageSync [OF s] have "quiet r1 r2 effs2" .
  with assms Some s show ?thesis
    by (auto simp: submit_images_def quiet_def Let_def r1_def split: if_splits)
qed

lemma quiet_start_game: "start_game r sock = (r', effs) \<Longrightarrow> quiet r r' effs"
  by (auto simp: start_game_def sendRound_def quiet_def Let_def split: if_splits option.splits)

lemma quiet_processRoundResults:
  "processRoundResults r = Inr (r', effs) \<Longrightarrow> quiet r r' effs"
  by (auto simp: processRoundResults_def quiet_def Let_def split: option.splits sum.splits)

lemma quiet_submit_guess:
  assumes "submit_guess r sock imageIndex guessedPlayerId = Inr (r', effs)"
  shows "quiet r r' effs"
proof (cases "find_first (\<lambda>p. socketId p = sock) (players r)")
  case None
  with assms show ?thesis by (auto simp: submit_guess_def quiet_def)
next
  case (Some p)
  with assms obtain g where g: "guesses r = Some g"
    by (auto simp: submit_guess_def split: option.splits)
  define r1 where
    "r1 = r\<lparr>guesses := Some (map_set g imageIndex
              (map_set (case map_get g imageIndex of None \<Rightarrow> [] | Some m \<Rightarrow> m)
                 (player_id p) guessedPlayerId))\<rparr>"
  show ?thesis
  proof (cases "processRoundResults r1")
    case (Inl e)
    with assms Some g show ?thesis
      by (auto simp: submit_guess_def quiet_def Let_def r1_def split: if_splits)
  next
    case (Inr res)
    obtain r2 effs2 where res: "res = (r2, effs2)" by (cases res)
    from quiet_processRoundResults [OF Inr [unfolded res]] have "quiet r1 r2 effs2" .
    with assms Some g Inr res show ?thesis
      by (auto simp: submit_guess_def quiet_def Let_def r1_def split: if_splits)
  qed
qed

lemma quiet_disconnect: "disconnect r sock = (r', effs) \<Longrightarrow> quiet r r' effs"
  by (auto simp: disconnect_def quiet_def split: option.splits)

lemma quiet_grace_timer: "grace_timer r playerId sock = (r', effs) \<Longrightarrow> quiet r r' effs"
  by (auto simp: grace_timer_def quiet_def Let_def split: option.splits if_splits list.splits)

lemma quiet_advance_timer:
  "advance_timer r isLastRound scores = (r', effs) \<Longrightarrow> quiet r r' effs"
  by (auto simp: advance_timer_def sendRound_def quiet_def Let_def split: if_splits option.splits)

lemma images_synced_once:
  assumes "images_synced r sock batchIndex = (r', effs)"
  shows "(syncComplete r \<longrightarrow> syncComplete r' \<and> Broadcast SyncComplete \<notin> set effs)
         \<and> (Broadcast SyncComplete \<in> set effs \<longrightarrow> syncComplete r')
         \<and> count_list effs (Broadcast SyncComplete) \<le> 1"
  using assms
  by (auto simp: images_synced_def Let_def split: option.splits if_splits)

lemma handle_once:
  assumes "\<not> is_new_game e" and "handle r e = Inr (r', effs)"
  shows "(syncComplete r \<longrightarrow> syncComplete r' \<and> Broadcast SyncComplete \<notin> set effs)
         \<and> (Broadcast SyncComplete \<in> set effs \<longrightarrow> syncComplete r')
         \<and> count_list effs (Broadcast SyncComplete) \<le> 1"
proof (cases e)
  case (ImagesSynced sock batchIndex)
  with assms show ?thesis using images_synced_once by simp
next
  case (NewGame sock)
  with assms show ?thesis by simp
next
  case (JoinRoom sock uuid nm)
  with assms have "quiet r r' effs" using quiet_join_room by simp
  then show ?thesis by (simp add: quiet_def)
next
  case (ReconnectToRoom sock playerId)
  with assms have "quiet r r' effs" using quiet_reconnect_to_room by simp
  then show ?thesis by (simp add: quiet_def)
next
  case (UpdateName sock nm)
  with assms have "quiet r r' effs" using quiet_update_name by simp
  then show ?thesis by (simp add: quiet_def)
next
  case (SubmitImages sock imgs rnd)
  with assms have "quiet r r' effs" using quiet_submit_images by simp
  then show ?thesis by (simp add: quiet_def)
next
  case (StartGame sock)
  with assms have "quiet r r' effs" using quiet_start_game by simp
  then show ?thesis by (simp add: quiet_def)
next
  case (SubmitGuess sock imageIndex guessedPlayerId)
  with assms have "quiet r r' effs" using quiet_submit_guess by simp
  then show ?thesis by (simp add: quiet_def)
next
  case (Disconnect sock)
  with assms have "quiet r r' effs" using quiet_disconnect by simp
  then show ?thesis by (simp add: quiet_def)
next
  case (GraceTimerFires playerId sock)
  with assms have "quiet r r' effs" using quiet_grace_timer by simp
  then show ?thesis by (simp add: quiet_def)
next
  case (AdvanceTimerFires isLastRound scores)
  with assms have "quiet r r' effs" using quiet_advance_timer by simp
  then show ?thesis by (simp add: quiet_def)
next
  case (BatchTimerFires index img)
  with assms show ?thesis by (auto simp: batch_timer_def)
qed

lemma room_not_found_quiet: "Broadcast SyncComplete \<notin> set (room_not_found e)"
  by (cases e) simp_all

lemma step_once:
  assumes "\<not> is_new_game e" and "step st e = Inr (st', effs)"
  shows "(syncComplete (fst st) \<longrightarrow> syncComplete (fst st') \<and> Broadcast SyncComplete \<notin> set effs)
         \<and> (Broadcast SyncComplete \<in> set effs \<longrightarrow> syncComplete (fst st'))
         \<and> count_list effs (Broadcast SyncComplete) \<le> 1"
proof (cases st)
  case (Pair r registered)
  show ?thesis
  proof (cases "uses_registry e \<and> \<not> registered")
    case True
    with assms Pair show ?thesis
      using room_not_found_quiet [of e] by (auto simp: step_def count_list_0_iff)
  next
    case False
    with assms Pair obtain r' where h: "handle r e = Inr (r', effs)" and st': "fst st' = r'"
      by (auto simp: step_def split: sum.splits)
    from handle_once [OF assms(1) h] show ?thesis using Pair st' by simp
  qed
qed

text \<open>
  Claim C2. In a sequence of events without new-game, from any state of a room,
  sync-complete is broadcast at most once, and not at all when the completion flag is
  already set at the start: the acknowledgment that sets the flag is the only one that
  broadcasts, and only new-game clears the flag.
\<close>

theorem sync_complete_at_most_once:
  assumes "\<not> list_ex is_new_game es" and "run st es = Inr (st', effs)"
  shows "count_list effs (Broadcast SyncComplete) \<le> 1
         \<and> (syncComplete (fst st) \<longrightarrow> count_list effs (Broadcast SyncComplete) = 0)"
  using assms
proof (induction es arbitrary: st effs)
  case Nil
  then show ?case by simp
next
  case (Cons e es)
  from Cons.prems(2) obtain st1 effs1 effs2 where
    s: "step st e = Inr (st1, effs1)" and r: "run st1 es = Inr (st', effs2)"
    and effs: "effs = effs1 @ effs2"
    by (auto split: sum.splits)
  from Cons.prems(1) have ne: "\<not> is_new_game e" and nes: "\<not> list_ex is_new_game es" by simp_all
  note once = step_once [OF ne s]
  note IH = Cons.IH [OF nes r]
  have done_before: "count_list effs (Broadcast SyncComplete) = 0" if "syncComplete (fst st)"
  proof -
    from once that have "syncComplete (fst st1)" "Broadcast SyncComplete \<notin> set effs1" by simp_all
    with IH effs show ?thesis by (simp add: count_list_0_iff)
  qed
  have "count_list effs (Broadcast SyncComplete) \<le> 1"
  proof (cases "Broadcast SyncComplete \<in> set effs1")
    case True
    with once have "syncComplete (fst st1)" by simp
    with IH have "count_list effs2 (Broadcast SyncComplete) = 0" by simp
    with once effs show ?thesis by simp
  next
    case False
    then have "count_list effs1 (Broadcast SyncComplete) = 0" by (simp add: count_list_0_iff)
    with IH effs show ?thesis by simp
  qed
  with done_before show ?case by simp
qed

lemma late_acks_run:
  "\<exists>r effs. run (solo_syncing, True) late_acks = Inr ((r, True), effs)
      \<and> count_list effs (Broadcast SyncComplete) = 1"
  by (simp add: late_acks_def solo_syncing_def eval_defs combine_images_def push_images_def ann_def)

theorem sync_complete_at_most_once_witness:
  "\<not> list_ex is_new_game late_acks
   \<and> (case run (solo_syncing, True) late_acks of
         Inl err \<Rightarrow> False
       | Inr (st, effs) \<Rightarrow> count_list effs (Broadcast SyncComplete) = 1)"
proof -
  have h: "\<not> list_ex is_new_game late_acks" by (simp add: late_acks_def)
  from late_acks_run obtain r effs where
    run: "run (solo_syncing, True) late_acks = Inr ((r, True), effs)"
    and one: "count_list effs (Broadcast SyncComplete) = 1"
    by auto
  from sync_complete_at_most_once [OF h run] have "count_list effs (Broadcast SyncComplete) \<le> 1"
    by simp
  with h run one show ?thesis by simp
qed

subsection \<open>One host\<close>

lemma update_first_ids:
  "(\<And>p. player_id (f p) = player_id p) \<Longrightarrow>
     map player_id (update_first P f ps) = map player_id ps"
  by (induction ps) simp_all

lemma update_first_hosts:
  "(\<And>p. isHost (f p) = isHost p) \<Longrightarrow> map isHost (update_first P f ps) = map isHost ps"
  by (induction ps) simp_all

lemma same_roster_reconnect_to_room:
  "reconnect_to_room r sock playerId = (r', effs) \<Longrightarrow> same_roster r r' effs"
  by (auto simp: reconnect_to_room_def same_roster_def Let_def update_first_ids
      update_first_hosts split: option.splits)

lemma same_roster_update_name: "update_name r sock nm = (r', effs) \<Longrightarrow> same_roster r r' effs"
  by (auto simp: update_name_def same_roster_def Let_def update_first_ids update_first_hosts
      split: option.splits)

lemma batch_timers_no_delete:
  "\<not> list_ex is_delete
       (map (\<lambda>(index, imageData). SetTimeout (index * 100) (BatchTimer index (image imageData)))
          xs)"
  by (induction xs) (auto simp: list_ex_iff)

lemma same_roster_submit_images:
  "submit_images r sock imgs rnd = (r', effs) \<Longrightarrow> same_roster r r' effs"
  by (auto simp: submit_images_def startImageSync_def same_roster_def Let_def update_first_ids
      update_first_hosts batch_timers_no_delete split: option.splits if_splits)

lemma same_roster_images_synced:
  "images_synced r sock batchIndex = (r', effs) \<Longrightarrow> same_roster r r' effs"
  by (auto simp: images_synced_def same_roster_def Let_def split: option.splits if_splits)

lemma same_roster_start_game: "start_game r sock = (r', effs) \<Longrightarrow> same_roster r r' effs"
  by (auto simp: start_game_def sendRound_def same_roster_def Let_def comp_def
      split: if_splits option.splits)

lemma score_players_roster:
  "score_players rg ci ps = Inr (ps', results) \<Longrightarrow>
     map player_id ps' = map player_id ps \<and> map isHost ps' = map isHost ps"
proof (induction ps arbitrary: ps' results)
  case Nil
  then show ?case by simp
next
  case (Cons p ps)
  then show ?case
    by (auto simp: Let_def split: option.splits sum.splits if_splits)
qed

lemma same_roster_processRoundResults:
  assumes "processRoundResults r = Inr (r', effs)"
  shows "same_roster r r' effs"
proof -
  from assms obtain g where g: "guesses r = Some g"
    by (auto simp: processRoundResults_def Let_def split: option.splits)
  from assms g obtain ps' results where
    sp: "score_players (map_get g (currentImageIndex r))
           (js_index (allImages r) (currentImageIndex r)) (players r) = Inr (ps', results)"
    by (auto simp: processRoundResults_def Let_def split: option.splits sum.splits)
  from assms g sp obtain ci where
    ci: "js_index (allImages r) (currentImageIndex r) = Some ci"
    by (auto simp: processRoundResults_def Let_def split: option.splits)
  from assms g sp ci have r': "players r' = ps'" and nd: "\<not> list_ex is_delete effs"
    by (auto simp: processRoundResults_def Let_def)
  from score_players_roster [OF sp] r' nd show ?thesis
    by (simp add: same_roster_def)
qed

lemma same_roster_submit_guess:
  assumes "submit_guess r sock imageIndex guessedPlayerId = Inr (r', effs)"
  shows "same_roster r r' effs"
proof (cases "find_first (\<lambda>p. socketId p = sock) (players r)")
  case None
  with assms show ?thesis by (auto simp: submit_guess_def same_roster_def)
next
  case (Some p)
  with assms obtain g where g: "guesses r = Some g"
    by (auto simp: submit_guess_def split: option.splits)
  define r1 where
    "r1 = r\<lparr>guesses := Some (map_set g imageIndex
              (map_set (case map_get g imageIndex of None \<Rightarrow> [] | Some m \<Rightarrow> m)
                 (player_id p) guessedPlayerId))\<rparr>"
  show ?thesis
  proof (cases "processRoundResults r1")
    case (Inl e)
    with assms Some g show ?thesis
      by (auto simp: submit_guess_def same_roster_def Let_def r1_def split: if_splits)
  next
    case (Inr res)
    obtain r2 effs2 where res: "res = (r2, effs2)" by (cases res)
    from same_roster_processRoundResults [OF Inr [unfolded res]]
    have "same_roster r1 r2 effs2" .
    with assms Some g Inr res show ?thesis
      by (auto simp: submit_guess_def same_roster_def Let_def r1_def split: if_splits)
  qed
qed

lemma same_roster_new_game: "new_game r sock = (r', effs) \<Longrightarrow> same_roster r r' effs"
  by (auto simp: new_game_def same_roster_def Let_def comp_def split: if_splits)

lemma same_roster_disconnect: "disconnect r sock = (r', effs) \<Longrightarrow> same_roster r r' effs"
  by (auto simp: disconnect_def same_roster_def split: option.splits)

lemma same_roster_advance_timer:
  "advance_timer r isLastRound scores = (r', effs) \<Longrightarrow> same_roster r r' effs"
  by (auto simp: advance_timer_def sendRound_def same_roster_def Let_def
      split: if_splits option.splits)

lemma hosts_map_isHost: "length (filter isHost ps) = length (filter id (map isHost ps))"
  by (simp add: filter_map comp_def)

lemma same_roster_keeps_ok:
  assumes "same_roster r r' effs" and "roster_ok (r, registered)"
  shows "roster_ok (r', registered \<and> \<not> list_ex is_delete effs)"
proof -
  from assms(1) have ids: "map player_id (players r') = map player_id (players r)"
    and hs: "map isHost (players r') = map isHost (players r)"
    and nd: "\<not> list_ex is_delete effs"
    by (simp_all add: same_roster_def)
  from ids have "length (players r') = length (players r)" by (metis length_map)
  then have empty: "players r' = [] \<longleftrightarrow> players r = []" by auto
  have "length (hosts r') = length (hosts r)"
    unfolding hosts_def hosts_map_isHost hs ..
  with assms(2) ids nd empty show ?thesis by (simp add: roster_ok_def)
qed

lemma join_room_keeps_ok:
  assumes "join_room r sock uuid nm = (r', effs)" and "roster_ok (r, True)"
    and "uuid \<notin> set (map player_id (players r))"
  shows "roster_ok (r', True \<and> \<not> list_ex is_delete effs)"
  using assms
  by (auto simp: join_room_def roster_ok_def hosts_def Let_def split: if_splits)

lemma join_room_ids:
  "join_room r sock uuid nm = (r', effs) \<Longrightarrow>
     set (map player_id (players r')) \<subseteq> insert uuid (set (map player_id (players r)))"
  by (auto simp: join_room_def Let_def split: if_splits)

lemma find_first_Some:
  "find_first P ps = Some p \<Longrightarrow> p \<in> set ps \<and> P p"
  by (induction ps) (auto split: if_splits)

lemma filter_other_ids:
  assumes "distinct (map player_id ps)" and "p \<in> set ps"
  shows "length (filter isHost (filter (\<lambda>q. player_id q \<noteq> player_id p) ps)) =
           length (filter isHost ps) - (if isHost p then 1 else 0)"
  using assms
proof (induction ps)
  case Nil
  then show ?case by simp
next
  case (Cons q qs)
  show ?case
  proof (cases "q = p")
    case True
    with Cons.prems(1) have "\<forall>x \<in> set qs. player_id x \<noteq> player_id p"
      by (auto simp: image_iff)
    then have "filter (\<lambda>q. player_id q \<noteq> player_id p) qs = qs" by (simp add: filter_id_conv)
    with True show ?thesis by simp
  next
    case False
    with Cons.prems have in_qs: "p \<in> set qs" and d: "distinct (map player_id qs)"
      and ne: "player_id q \<noteq> player_id p" by auto
    have "isHost p \<Longrightarrow> 0 < length (filter isHost qs)"
      using in_qs by (simp add: length_greater_0_conv filter_empty_conv) blast
    with Cons.IH [OF d in_qs] ne show ?thesis by auto
  qed
qed

lemma grace_timer_keeps_ok:
  assumes "grace_timer r playerId sock = (r', effs)" and "roster_ok (r, True)"
  shows "roster_ok (r', True \<and> \<not> list_ex is_delete effs)"
proof (cases "find_first (\<lambda>p. player_id p = playerId) (players r)")
  case None
  with assms show ?thesis by (simp add: grace_timer_def)
next
  case (Some currentPlayer)
  from find_first_Some [OF Some]
  have mem: "currentPlayer \<in> set (players r)" and pid: "player_id currentPlayer = playerId"
    by simp_all
  from assms(2) have d: "distinct (map player_id (players r))"
    and one: "length (hosts r) = 1"
    using mem by (auto simp: roster_ok_def)
  show ?thesis
  proof (cases "socketId currentPlayer = sock")
    case False
    with assms Some show ?thesis by (simp add: grace_timer_def)
  next
    case True
    define rest where "rest = filter (\<lambda>p. player_id p \<noteq> playerId) (players r)"
    have d': "distinct (map player_id rest)"
      using d by (simp add: rest_def distinct_map_filter)
    have cnt: "length (filter isHost rest) = 1 - (if isHost currentPlayer then 1 else 0)"
      using filter_other_ids [OF d mem] one by (simp add: rest_def pid hosts_def)
    show ?thesis
    proof (cases rest)
      case Nil
      with assms Some True show ?thesis
        by (auto simp: grace_timer_def Let_def rest_def roster_ok_def)
    next
      case (Cons first others)
      show ?thesis
      proof (cases "isHost currentPlayer")
        case host: True
        with cnt have "filter isHost rest = []" by simp
        with Cons have "\<not> isHost first" and "filter isHost others = []"
          by (auto split: if_splits)
        with assms Some True Cons host d' show ?thesis
          by (auto simp: grace_timer_def Let_def rest_def [symmetric] roster_ok_def hosts_def)
      next
        case nohost: False
        with cnt have "length (filter isHost rest) = 1" by simp
        with assms Some True Cons nohost d' show ?thesis
          by (auto simp: grace_timer_def Let_def rest_def [symmetric] roster_ok_def hosts_def)
      qed
    qed
  qed
qed

lemma grace_timer_roster:
  "grace_timer r playerId sock = (r', effs) \<Longrightarrow>
     map player_id (players r') = map player_id (players r)
     \<or> map player_id (players r') =
         map player_id (filter (\<lambda>p. player_id p \<noteq> playerId) (players r))"
  by (cases "filter (\<lambda>p. player_id p \<noteq> playerId) (players r)")
     (auto simp: grace_timer_def Let_def split: option.splits if_splits)

lemma grace_timer_ids:
  assumes "grace_timer r playerId sock = (r', effs)"
  shows "set (map player_id (players r')) \<subseteq> set (map player_id (players r))"
proof -
  have sub: "set (map player_id (filter (\<lambda>p. player_id p \<noteq> playerId) (players r)))
          \<subseteq> set (map player_id (players r))"
    by auto
  from grace_timer_roster [OF assms] show ?thesis
  proof
    assume "map player_id (players r') = map player_id (players r)"
    then show ?thesis by (metis subset_refl)
  next
    assume "map player_id (players r') =
              map player_id (filter (\<lambda>p. player_id p \<noteq> playerId) (players r))"
    with sub show ?thesis by metis
  qed
qed

lemma handle_same_roster:
  assumes "handle r e = Inr (r', effs)"
    and "\<And>sock uuid nm. e \<noteq> JoinRoom sock uuid nm"
    and "\<And>playerId sock. e \<noteq> GraceTimerFires playerId sock"
  shows "same_roster r r' effs"
proof (cases e)
  case (JoinRoom sock uuid nm)
  with assms(2) [of sock uuid nm] show ?thesis by simp
next
  case (ReconnectToRoom sock playerId)
  with assms(1) show ?thesis using same_roster_reconnect_to_room by simp
next
  case (UpdateName sock nm)
  with assms(1) show ?thesis using same_roster_update_name by simp
next
  case (SubmitImages sock imgs rnd)
  with assms(1) show ?thesis using same_roster_submit_images by simp
next
  case (ImagesSynced sock batchIndex)
  with assms(1) show ?thesis using same_roster_images_synced by simp
next
  case (StartGame sock)
  with assms(1) show ?thesis using same_roster_start_game by simp
next
  case (SubmitGuess sock imageIndex guessedPlayerId)
  with assms(1) show ?thesis using same_roster_submit_guess by simp
next
  case (NewGame sock)
  with assms(1) show ?thesis using same_roster_new_game by simp
next
  case (Disconnect sock)
  with assms(1) show ?thesis using same_roster_disconnect by simp
next
  case (GraceTimerFires playerId sock)
  with assms(3) [of playerId sock] show ?thesis by simp
next
  case (AdvanceTimerFires isLastRound scores)
  with assms(1) show ?thesis using same_roster_advance_timer by simp
next
  case (BatchTimerFires index img)
  with assms(1) show ?thesis by (auto simp: same_roster_def batch_timer_def)
qed

lemma step_keeps_ok:
  assumes "step st e = Inr (st', effs)" and "roster_ok st"
    and "set (join_uuids [e]) \<inter> set (map player_id (players (fst st))) = {}"
  shows "roster_ok st'
         \<and> set (map player_id (players (fst st')))
             \<subseteq> set (map player_id (players (fst st))) \<union> set (join_uuids [e])"
proof (cases st)
  case (Pair r registered)
  show ?thesis
  proof (cases "uses_registry e \<and> \<not> registered")
    case True
    with assms Pair show ?thesis by (auto simp: step_def)
  next
    case False
    with assms(1) Pair obtain r' where h: "handle r e = Inr (r', effs)"
      and st': "st' = (r', registered \<and> \<not> list_ex is_delete effs)"
      by (auto simp: step_def split: sum.splits)
    from assms(2) Pair have ok: "roster_ok (r, registered)" by simp
    show ?thesis
    proof (cases e)
      case (JoinRoom sock uuid nm)
      with False have reg: "registered" by simp
      from h JoinRoom have j: "join_room r sock uuid nm = (r', effs)" by simp
      from assms(3) Pair JoinRoom have fresh: "uuid \<notin> set (map player_id (players r))" by simp
      from join_room_keeps_ok [OF j _ fresh] ok reg st' join_room_ids [OF j] JoinRoom Pair
      show ?thesis by auto
    next
      case (GraceTimerFires playerId sock)
      with False have reg: "registered" by simp
      from h GraceTimerFires have g: "grace_timer r playerId sock = (r', effs)" by simp
      from grace_timer_keeps_ok [OF g] ok reg st' grace_timer_ids [OF g] Pair
      show ?thesis by auto
    next
      case (ReconnectToRoom sock playerId)
      with h have "same_roster r r' effs" by (intro handle_same_roster [OF h]) simp_all
      from same_roster_keeps_ok [OF this ok] this st' Pair show ?thesis
        by (simp add: same_roster_def)
    next
      case (UpdateName sock nm)
      with h have "same_roster r r' effs" by (intro handle_same_roster [OF h]) simp_all
      from same_roster_keeps_ok [OF this ok] this st' Pair show ?thesis
        by (simp add: same_roster_def)
    next
      case (SubmitImages sock imgs rnd)
      with h have "same_roster r r' effs" by (intro handle_same_roster [OF h]) simp_all
      from same_roster_keeps_ok [OF this ok] this st' Pair show ?thesis
        by (simp add: same_roster_def)
    next
      case (ImagesSynced sock batchIndex)
      with h have "same_roster r r' effs" by (intro handle_same_roster [OF h]) simp_all
      from same_roster_keeps_ok [OF this ok] this st' Pair show ?thesis
        by (simp add: same_roster_def)
    next
      case (StartGame sock)
      with h have "same_roster r r' effs" by (intro handle_same_roster [OF h]) simp_all
      from same_roster_keeps_ok [OF this ok] this st' Pair show ?thesis
        by (simp add: same_roster_def)
    next
      case (SubmitGuess sock imageIndex guessedPlayerId)
      with h have "same_roster r r' effs" by (intro handle_same_roster [OF h]) simp_all
      from same_roster_keeps_ok [OF this ok] this st' Pair show ?thesis
        by (simp add: same_roster_def)
    next
      case (NewGame sock)
      with h have "same_roster r r' effs" by (intro handle_same_roster [OF h]) simp_all
      from same_roster_keeps_ok [OF this ok] this st' Pair show ?thesis
        by (simp add: same_roster_def)
    next
      case (Disconnect sock)
      with h have "same_roster r r' effs" by (intro handle_same_roster [OF h]) simp_all
      from same_roster_keeps_ok [OF this ok] this st' Pair show ?thesis
        by (simp add: same_roster_def)
    next
      case (AdvanceTimerFires isLastRound scores)
      with h have "same_roster r r' effs" by (intro handle_same_roster [OF h]) simp_all
      from same_roster_keeps_ok [OF this ok] this st' Pair show ?thesis
        by (simp add: same_roster_def)
    next
      case (BatchTimerFires index img)
      with h have "same_roster r r' effs" by (intro handle_same_roster [OF h]) simp_all
      from same_roster_keeps_ok [OF this ok] this st' Pair show ?thesis
        by (simp add: same_roster_def)
    qed
  qed
qed

lemma join_uuids_Cons: "join_uuids (e # es) = join_uuids [e] @ join_uuids es"
  by (cases e) simp_all

lemma run_keeps_ok:
  "roster_ok st \<Longrightarrow> distinct (join_uuids es)
     \<Longrightarrow> set (join_uuids es) \<inter> set (map player_id (players (fst st))) = {}
     \<Longrightarrow> run st es = Inr (st', effs) \<Longrightarrow> roster_ok st'"
proof (induction es arbitrary: st effs)
  case Nil
  then show ?case by simp
next
  case (Cons e es)
  from Cons.prems(4) obtain st1 effs1 effs2 where
    s: "step st e = Inr (st1, effs1)" and r: "run st1 es = Inr (st', effs2)"
    by (auto split: sum.splits)
  from Cons.prems(2,3) have
    d: "distinct (join_uuids es)"
    and fresh_e: "set (join_uuids [e]) \<inter> set (map player_id (players (fst st))) = {}"
    and fresh_es: "set (join_uuids es) \<inter> set (map player_id (players (fst st))) = {}"
    and apart: "set (join_uuids [e]) \<inter> set (join_uuids es) = {}"
    unfolding join_uuids_Cons [of e es] by auto
  from step_keeps_ok [OF s Cons.prems(1) fresh_e]
  have ok1: "roster_ok st1"
    and ids: "set (map player_id (players (fst st1)))
                \<subseteq> set (map player_id (players (fst st))) \<union> set (join_uuids [e])"
    by simp_all
  from ids fresh_es apart
  have "set (join_uuids es) \<inter> set (map player_id (players (fst st1))) = {}" by blast
  from Cons.IH [OF ok1 d this r] show ?case .
qed

lemma new_room_ok: "roster_ok (new_room roomId playerId sock, True)"
  by (simp add: roster_ok_def new_room_def hosts_def)

text \<open>
  Claim C4. Take a room from create-room through any sequence of events in which every
  join draws an id that was not drawn before. In the state reached, at most one player
  of the roster is host, and when the roster is not empty (in particular after the grace
  timer has removed a player) exactly one is: create-room makes the creator host, joins
  add players who are not, and the grace timer promotes the first remaining player when
  it removes the host.
\<close>

theorem at_most_one_host:
  assumes "distinct (playerId # join_uuids es)"
    and "run (new_room roomId playerId sock, True) es = Inr ((r, registered), effs)"
  shows "length (hosts r) \<le> 1 \<and> (players r \<noteq> [] \<longrightarrow> length (hosts r) = 1)"
proof -
  from assms(1) have d: "distinct (join_uuids es)"
    and fresh: "set (join_uuids es)
                  \<inter> set (map player_id (players (fst (new_room roomId playerId sock, True)))) = {}"
    by (simp_all add: new_room_def)
  from run_keeps_ok [OF new_room_ok d fresh assms(2)]
  have ok: "roster_ok (r, registered)" .
  then have one: "players r \<noteq> [] \<longrightarrow> length (hosts r) = 1" by (simp add: roster_ok_def)
  have "players r = [] \<Longrightarrow> length (hosts r) = 0" by (simp add: hosts_def)
  with one show ?thesis by (cases "players r = []") simp_all
qed

lemma host_leaves_run:
  "\<exists>r effs.
     run (new_room ''ABCDEF'' ''p1'' ''s1'', True) host_leaves = Inr ((r, True), effs)
     \<and> map player_id (players r) = [''p2'', ''p3'']
     \<and> map isHost (players r) = [True, False]"
  by (simp add: host_leaves_def step_def new_room_def join_room_def disconnect_def
      grace_timer_def Let_def sanitizeRoom_def)


theorem at_most_one_host_witness:
  "distinct (''p1'' # join_uuids host_leaves)
   \<and> (case run (new_room ''ABCDEF'' ''p1'' ''s1'', True) host_leaves of
         Inl err \<Rightarrow> False
       | Inr ((r, registered), effs) \<Rightarrow>
           map player_id (players r) = [''p2'', ''p3'']
           \<and> map isHost (players r) = [True, False]
           \<and> length (hosts r) = 1)"
proof -
  have h: "distinct (''p1'' # join_uuids host_leaves)"
    by (simp add: host_leaves_def)
  from host_leaves_run obtain r effs where
    run: "run (new_room ''ABCDEF'' ''p1'' ''s1'', True) host_leaves = Inr ((r, True), effs)"
    and ids: "map player_id (players r) = [''p2'', ''p3'']"
    and hs: "map isHost (players r) = [True, False]"
    by auto
  from ids have "players r \<noteq> []" by auto
  with at_most_one_host [OF h run] have "length (hosts r) = 1" by simp
  with h run ids hs show ?thesis by simp
qed

subsection \<open>The concrete rooms are reached from create-room\<close>

lemma random_index_last:
  assumes "0 < n" "n \<le> 100"
  shows "random_index (99 / 100) n = int n - 1"
proof -
  have "real_of_int (int n - 1) \<le> 99 / 100 * real n" using assms by simp
  moreover have "99 / 100 * real n < real_of_int (int n - 1) + 1" using assms by simp
  ultimately show ?thesis unfolding random_index_def by (rule floor_unique)
qed

lemma shuffle_loop_last:
  "i < 100 \<Longrightarrow> shuffle_loop rnd_last k i a = a"
proof (induction i arbitrary: k a)
  case 0
  then show ?case by simp
next
  case (Suc i)
  have "random_index (rnd_last k) (Suc i + 1) = int (Suc i + 1) - 1"
    unfolding rnd_last_def using Suc.prems by (intro random_index_last) simp_all
  then have "nat (random_index (rnd_last k) (Suc i + 1)) = Suc i" by simp
  moreover have "swap a (Suc i) (Suc i) = a" by (simp add: swap_def)
  ultimately show ?case using Suc by (simp add: Let_def)
qed

lemma shuffle_last: "length a \<le> 100 \<Longrightarrow> shuffle rnd_last a = a"
  by (simp add: shuffle_def shuffle_loop_last)

lemma upto30: "[0..<30] = [0,1,2,3,4,5,6,7,8,9,10,11,12,13,14,15,16,17,18,19,20,21,22,23,24,25,26,27,28,29]"
  by (simp add: upt_rec)

lemma solo_syncing_reachable:
  "state_of (run (new_room ''ABCDEF'' ''p1'' ''s1'', True) solo_history)
     = Some (solo_syncing, True)"
  by (simp add: solo_history_def solo_syncing_def eval_defs update_name_def submit_images_def
      startImageSync_def shuffle_last combine_images_def push_images_def ann_def
      batch_timers_no_delete)

lemma duo_syncing_reachable:
  "state_of (run (new_room ''ABCDEF'' ''p1'' ''s1'', True) duo_history)
     = Some (duo_syncing, True)"
  by (simp add: duo_history_def duo_syncing_def eval_defs update_name_def submit_images_def
      startImageSync_def shuffle_last combine_images_def push_images_def ann_def bob_def
      batch_timers_no_delete)

lemma run_append:
  "run st es1 = Inr (st1, effs1) \<Longrightarrow> run st1 es2 = Inr (st2, effs2)
     \<Longrightarrow> run st (es1 @ es2) = Inr (st2, effs1 @ effs2)"
  by (induction es1 arbitrary: st effs1) (auto split: sum.splits)

lemmas trio_eval = eval_defs update_name_def submit_images_def
      startImageSync_def shuffle_last combine_images_def push_images_def ann_def bob_def cid_def
      batch_timers_no_delete upto30 trio_playing_def trio_ready_def all_acks_def

lemma trio_stage1:
  "\<exists>effs. run (new_room ''ABCDEF'' ''p1'' ''s1'', True) trio_arrives = Inr ((trio_ready, True), effs)"
  by (simp add: trio_arrives_def trio_eval)

lemma trio_stage2:
  "\<exists>effs. run (trio_ready, True) (all_acks ''s1'')
      = Inr ((trio_ready\<lparr>syncProgress := [(''p1'', map int [0..<30])]\<rparr>, True), effs)"
  by (simp add: trio_eval)

lemma trio_stage3:
  "\<exists>effs. run (trio_ready\<lparr>syncProgress := [(''p1'', map int [0..<30])]\<rparr>, True) (all_acks ''s2'')
      = Inr ((trio_ready\<lparr>syncProgress := [(''p1'', map int [0..<30]),
                (''p2'', map int [0..<30])]\<rparr>, True), effs)"
  by (simp add: trio_eval)

lemma trio_stage4:
  "\<exists>effs. run (trio_ready\<lparr>syncProgress := [(''p1'', map int [0..<30]),
                (''p2'', map int [0..<30])]\<rparr>, True) (all_acks ''s3'' @ [StartGame ''s1''])
      = Inr ((trio_playing, True), effs)"
  by (simp add: trio_eval)

lemma trio_playing_reachable:
  "state_of (run (new_room ''ABCDEF'' ''p1'' ''s1'', True) trio_history)
     = Some (trio_playing, True)"
proof -
  from trio_stage1 trio_stage2 trio_stage3 trio_stage4 obtain e1 e2 e3 e4 where
    "run (new_room ''ABCDEF'' ''p1'' ''s1'', True) trio_arrives = Inr ((trio_ready, True), e1)"
    "run (trio_ready, True) (all_acks ''s1'')
      = Inr ((trio_ready\<lparr>syncProgress := [(''p1'', map int [0..<30])]\<rparr>, True), e2)"
    "run (trio_ready\<lparr>syncProgress := [(''p1'', map int [0..<30])]\<rparr>, True) (all_acks ''s2'')
      = Inr ((trio_ready\<lparr>syncProgress := [(''p1'', map int [0..<30]),
                (''p2'', map int [0..<30])]\<rparr>, True), e3)"
    "run (trio_ready\<lparr>syncProgress := [(''p1'', map int [0..<30]),
                (''p2'', map int [0..<30])]\<rparr>, True) (all_acks ''s3'' @ [StartGame ''s1''])
      = Inr ((trio_playing, True), e4)"
    by blast
  then have "run (new_room ''ABCDEF'' ''p1'' ''s1'', True) trio_history
               = Inr ((trio_playing, True), e1 @ e2 @ e3 @ e4)"
    unfolding trio_history_def by (intro run_append)
  then show ?thesis by simp
qed

lemma trio_guessed_reachable:
  "state_of (run (trio_playing, True) two_guesses) = Some (trio_guessed, True)"
  by (simp add: two_guesses_def trio_guessed_def eval_defs trio_defs)

subsection \<open>When a round is resolved\<close>

text \<open>
  Claim C1, on the code. The room \<open>trio_playing\<close> is reached from create-room.
  There, submit-guess resolves the round when the guess map of the
  submitted index has at least as many entries as the roster has players. Ann's guess
  stays in the map after the grace timer has removed her, so Bob's guess brings the map
  to two entries for a roster of two and round-results is broadcast, although Cid, who
  is present, has no guess recorded for the round.
\<close>

theorem stale_guess_resolves_round:
  "state_of (run (new_room ''ABCDEF'' ''p1'' ''s1'', True) trio_history)
     = Some (trio_playing, True)
   \<and> list_ex is_round_results (effects_of (run (trio_playing, True) stale_guess))
   \<and> map_option (map player_id \<circ> players) (room_of (run (trio_playing, True) stale_guess))
       = Some [''p2'', ''p3'']
   \<and> map_option guesses (room_of (run (trio_playing, True) stale_guess))
       = Some (Some [(0, [(''p1'', ''p2''), (''p2'', ''p3'')])])"
  by (simp only: trio_playing_reachable) (simp add: stale_guess_def eval_defs trio_defs)

text \<open>
  Claim C9, on the code. The room \<open>trio_playing\<close> is reached from create-room. With
  the room in round 0, three guesses sent for round 1 fill
  the map of round 1; the third triggers round resolution, which reads the map of round
  0, finds none and throws. In a room that was never started, \<^verbatim>\<open>room.guesses\<close> does not
  exist and the first submit-guess throws.
\<close>

theorem wrong_round_index_throws:
  "state_of (run (new_room ''ABCDEF'' ''p1'' ''s1'', True) trio_history)
     = Some (trio_playing, True)
   \<and> run (trio_playing, True) wrong_round = Inl (TypeError ''roundGuesses is undefined'')
   \<and> submit_guess (new_room ''ABCDEF'' ''p1'' ''s1'') ''s1'' 0 ''p1''
       = Inl (TypeError ''room.guesses is undefined'')"
  by (simp only: trio_playing_reachable) (simp add: wrong_round_def eval_defs trio_defs)

subsection \<open>When image sync starts\<close>

lemma length_shuffle_loop: "length (shuffle_loop rnd k i a) = length a"
  by (induction i arbitrary: k a) (simp_all add: Let_def length_swap)

lemma length_shuffle: "length (shuffle rnd a) = length a"
  by (simp add: shuffle_def length_shuffle_loop)

lemma shuffle_empty: "shuffle rnd a = [] \<longleftrightarrow> a = []"
  using length_shuffle [of rnd a] by (metis length_0_conv)

lemma starts_enumerate:
  "length (filter starts_distribution
             (map (\<lambda>(index, imageData).
                     SetTimeout (index * 100) (BatchTimer index (image imageData)))
                (enumerate n deck))) =
     (if n = 0 \<and> deck \<noteq> [] then 1 else 0)"
  by (induction deck arbitrary: n) simp_all

lemma starts_enumerate_comp:
  "length (filter (starts_distribution \<circ>
                     (\<lambda>(index, imageData).
                         SetTimeout (index * 100) (BatchTimer index (image imageData))))
             (enumerate n deck)) =
     (if n = 0 \<and> deck \<noteq> [] then 1 else 0)"
  using starts_enumerate [of n deck] by (simp add: filter_map)

lemma starts_startImageSync:
  "length (filter starts_distribution (snd (startImageSync rnd r))) =
     (if combine_images (players r) = [] then 0 else 1)"
  by (simp only: startImageSync_def Let_def snd_conv starts_enumerate shuffle_empty) simp

text \<open>
  Claim C8, as amended. Image sync is level-triggered and has no once-only guard. A
  submit-images from a player bound to the socket records the images; if every player
  then has \<open>imageCount = 10\<close>, startImageSync runs: the deck becomes the shuffle of the
  players' current images and, unless it is empty, a distribution starts. Otherwise the
  deck stays as it was and nothing is distributed. This holds for every submission, the
  first that makes the condition true and any later one alike.
\<close>

theorem submit_images_level_triggered:
  assumes "find_first (\<lambda>p. socketId p = sock) (players r) = Some p"
  shows
    "let ps = update_first (\<lambda>p. socketId p = sock)
                (\<lambda>p. p\<lparr>images := imgs, imageCount := length imgs\<rparr>) (players r);
         allReady = list_all (\<lambda>q. imageCount q = 10) ps
     in players (fst (submit_images r sock imgs rnd)) = ps
        \<and> allImages (fst (submit_images r sock imgs rnd)) =
            (if allReady then shuffle rnd (combine_images ps) else allImages r)
        \<and> length (filter starts_distribution (snd (submit_images r sock imgs rnd))) =
            (if allReady \<and> combine_images ps \<noteq> [] then 1 else 0)"
proof -
  define r1 where
    "r1 = r\<lparr>players := update_first (\<lambda>p. socketId p = sock)
                            (\<lambda>p. p\<lparr>images := imgs, imageCount := length imgs\<rparr>) (players r)\<rparr>"
  have unfolded: "submit_images r sock imgs rnd =
      (if list_all (\<lambda>q. imageCount q = 10) (players r1)
       then (fst (startImageSync rnd r1),
             [Callback AckSuccess, Broadcast (RoomUpdated (sanitizeRoom r1))]
               @ snd (startImageSync rnd r1))
       else (r1, [Callback AckSuccess, Broadcast (RoomUpdated (sanitizeRoom r1))]))"
    using assms by (simp add: submit_images_def Let_def r1_def split: prod.splits)
  have deck: "allImages (fst (startImageSync rnd r1)) = shuffle rnd (combine_images (players r1))"
    and ps: "players (fst (startImageSync rnd r1)) = players r1"
    by (simp_all add: startImageSync_def Let_def)
  have starts: "length (filter starts_distribution (snd (submit_images r sock imgs rnd))) =
      (if list_all (\<lambda>q. imageCount q = 10) (players r1) \<and> combine_images (players r1) \<noteq> []
       then 1 else 0)"
  proof (cases "list_all (\<lambda>q. imageCount q = 10) (players r1)")
    case True
    then have "length (filter starts_distribution (snd (submit_images r sock imgs rnd))) =
                 length (filter starts_distribution (snd (startImageSync rnd r1)))"
      by (simp add: unfolded)
    also have "\<dots> = (if combine_images (players r1) = [] then 0 else 1)"
      by (rule starts_startImageSync)
    finally show ?thesis using True by simp
  next
    case False
    then show ?thesis by (simp add: unfolded)
  qed
  have "players (fst (submit_images r sock imgs rnd)) = players r1"
    by (simp add: unfolded ps)
  moreover have "allImages (fst (submit_images r sock imgs rnd)) =
      (if list_all (\<lambda>q. imageCount q = 10) (players r1)
       then shuffle rnd (combine_images (players r1)) else allImages r)"
    by (simp add: unfolded deck) (simp add: r1_def)
  ultimately show ?thesis
    using starts by (simp add: Let_def r1_def)
qed

theorem submit_images_level_triggered_witness:
  "find_first (\<lambda>p. socketId p = ''s1'') (players solo_syncing) = Some ann
   \<and> allImages solo_syncing = combine_images [ann]
   \<and> players (fst (submit_images solo_syncing ''s1'' (images ann) rnd_zero)) = [ann]
   \<and> allImages (fst (submit_images solo_syncing ''s1'' (images ann) rnd_zero)) =
       shuffle rnd_zero (combine_images [ann])
   \<and> length (filter starts_distribution
                (snd (submit_images solo_syncing ''s1'' (images ann) rnd_zero))) = 1"
proof -
  have h: "find_first (\<lambda>p. socketId p = ''s1'') (players solo_syncing) = Some ann"
    by (simp add: solo_syncing_def ann_def)
  have ps: "update_first (\<lambda>p. socketId p = ''s1'')
              (\<lambda>p. p\<lparr>images := images ann, imageCount := length (images ann)\<rparr>)
              (players solo_syncing) = [ann]"
    by (simp add: solo_syncing_def ann_def)
  have ready: "list_all (\<lambda>q. imageCount q = 10) [ann]" by (simp add: ann_def)
  have deck: "combine_images [ann] \<noteq> []"
    by (simp add: combine_images_def push_images_def ann_def)
  from submit_images_level_triggered [OF h, of "images ann" rnd_zero]
  show ?thesis
    using h ready deck by (simp add: Let_def ps) (simp add: solo_syncing_def)
qed

text \<open>
  Claim C8 as stated fails: Ann's second submission, within the same game, starts a
  second distribution.
\<close>

theorem resubmission_restarts_sync:
  "length (filter starts_distribution
             (effects_of (run (new_room ''ABCDEF'' ''p1'' ''s1'', True) resubmission))) = 2"
  by (simp add: resubmission_def step_def new_room_def submit_images_def startImageSync_def
      Let_def sanitizeRoom_def combine_images_def push_images_def ann_def starts_enumerate_comp
      shuffle_empty batch_timers_no_delete)

end
